theory Spec2Isabelle
  imports Main "HOL-Library.Word"
begin

section \<open>The contract DbEncryptToolFHE\<close>

text \<open>
  A shallow embedding of the Solidity contract \<^verbatim>\<open>DbEncryptToolFHE\<close>: its storage is a
  record, every external function is a sequence of statements run on that record, and a
  \<^verbatim>\<open>revert\<close> stops the sequence with an error. Solidity 0.8 arithmetic is checked:
  an overflowing \<^verbatim>\<open>+\<close> or \<^verbatim>\<open>++\<close> reverts with \<^verbatim>\<open>Panic(0x11)\<close>.
\<close>

subsection \<open>Value types\<close>

type_synonym address = "160 word"
type_synonym uint256 = "256 word"
type_synonym uint32 = "32 word"
type_synonym bytes32 = "256 word"
type_synonym bytes = "8 word list"

text \<open>\<^verbatim>\<open>euint32\<close> is a user-defined value type over \<^verbatim>\<open>bytes32\<close>: an opaque handle.\<close>

type_synonym euint32 = bytes32

definition toBytes32 :: "euint32 \<Rightarrow> bytes32" where
  "toBytes32 v = v"

subsection \<open>Storage\<close>

record DecryptionContext =
  batchId :: uint256
  stateHash :: bytes32
  processed :: bool

datatype event =
    OwnershipTransferred address address
  | ProviderAdded address
  | ProviderRemoved address
  | Paused address
  | Unpaused address
  | CooldownSecondsSet uint256 uint256
  | BatchOpened uint256
  | BatchClosed uint256
  | DataSubmitted address uint256 euint32
  | DecryptionRequested uint256 uint256
  | DecryptionCompleted uint256 uint256 uint32

text \<open>The one callback the contract registers: \<^verbatim>\<open>this.myCallback.selector\<close>.\<close>

datatype selector = myCallback_selector

text \<open>
  A Solidity mapping is total: a key never written reads as zero. The event log is part
  of the state (oldest first), since a revert discards the events of the call too. So is
  the list of the requests this contract has registered with the decryption oracle
  (request id, handles, callback): it is the oracle's storage, not the contract's, but a
  transaction extends it and a revert rolls it back with the rest.
\<close>

record state =
  owner :: address
  isProvider :: "address \<Rightarrow> bool"
  paused :: bool
  cooldownSeconds :: uint256
  lastSubmissionTime :: "address \<Rightarrow> uint256"
  lastDecryptionRequestTime :: "address \<Rightarrow> uint256"
  currentBatchId :: uint256
  batchClosed :: "uint256 \<Rightarrow> bool"
  decryptionContexts :: "uint256 \<Rightarrow> DecryptionContext"
  encryptedData :: "uint256 \<Rightarrow> euint32"
  events :: "event list"
  decryptionRequests :: "(uint256 \<times> bytes32 list \<times> selector) list"

text \<open>
  The eight errors the contract declares, and the four reverts it can raise without
  declaring them: the arithmetic panic, the revert of \<^verbatim>\<open>FHE.checkSignatures\<close> on a
  proof it rejects, the revert of \<^verbatim>\<open>abi.decode\<close> on malformed cleartexts, and a
  revert inside \<^verbatim>\<open>FHE.requestDecryption\<close>.
\<close>

datatype error =
    NotOwner
  | NotProvider
  | PausedContract
  | CooldownActive
  | BatchClosedOrInvalid
  | ReplayAttempt
  | StateMismatch
  | InvalidBatchId
  | Panic
  | InvalidSignatures
  | AbiDecodeError
  | RequestDecryptionReverted

text \<open>The transaction context: \<^verbatim>\<open>msg.sender\<close> and \<^verbatim>\<open>block.timestamp\<close>.\<close>

record msg =
  sender :: address
  timestamp :: uint256

text \<open>
  What the contract calls and does not define: \<^verbatim>\<open>keccak256\<close>, \<^verbatim>\<open>abi.encode\<close> of a
  \<^verbatim>\<open>bytes32[]\<close> with an address, the contract's own address, and the signature check of
  the FHE library (\<open>True\<close> when it returns, \<open>False\<close> when it reverts). They are
  parameters of the model.
\<close>

record externals =
  keccak256 :: "bytes \<Rightarrow> bytes32"
  abi_encode :: "bytes32 list \<Rightarrow> address \<Rightarrow> bytes"
  this_address :: address
  checkSignatures :: "uint256 \<Rightarrow> bytes \<Rightarrow> bytes \<Rightarrow> bool"

subsection \<open>Statements\<close>

text \<open>
  A statement maps the storage to the storage it leaves and, when it reverted, the error.
  The storage returned with an error is the one reached when the revert was executed,
  before the EVM rolls the call back.
\<close>

type_synonym stmt = "state \<Rightarrow> error option \<times> state"

definition revert_if :: "(state \<Rightarrow> bool) \<Rightarrow> error \<Rightarrow> stmt" where
  "revert_if c e s = (if c s then (Some e, s) else (None, s))"

definition assign :: "(state \<Rightarrow> state) \<Rightarrow> stmt" where
  "assign f s = (None, f s)"

definition emit :: "(state \<Rightarrow> event) \<Rightarrow> stmt" where
  "emit ev s = (None, s\<lparr>events := events s @ [ev s]\<rparr>)"

definition if_then :: "(state \<Rightarrow> bool) \<Rightarrow> stmt \<Rightarrow> stmt" where
  "if_then c p s = (if c s then p s else (None, s))"

definition seq :: "stmt \<Rightarrow> stmt \<Rightarrow> stmt" where
  "seq p q s = (case p s of (None, s') \<Rightarrow> q s' | (Some e, s') \<Rightarrow> (Some e, s'))"

fun block :: "stmt list \<Rightarrow> stmt" where
  "block [] = (\<lambda>s. (None, s))"
| "block (p # ps) = seq p (block ps)"

text \<open>A local (stack or memory) variable: the value is read once, where it is declared.\<close>

definition local :: "(state \<Rightarrow> 'a) \<Rightarrow> ('a \<Rightarrow> stmt) \<Rightarrow> stmt" where
  "local f k s = k (f s) s"

text \<open>A local variable whose initialiser can revert.\<close>

definition local_checked :: "(state \<Rightarrow> 'a option) \<Rightarrow> error \<Rightarrow> ('a \<Rightarrow> stmt) \<Rightarrow> stmt" where
  "local_checked f e k s = (case f s of None \<Rightarrow> (Some e, s) | Some v \<Rightarrow> k v s)"

text \<open>Checked addition on \<^verbatim>\<open>uint256\<close>.\<close>

definition checked_add :: "uint256 \<Rightarrow> uint256 \<Rightarrow> uint256 option" where
  "checked_add a b = (if unat a + unat b < 2 ^ 256 then Some (a + b) else None)"

text \<open>
  \<^verbatim>\<open>abi.decode(cleartexts, (uint32))\<close>: the first 32 bytes, big-endian; it reverts when
  there are fewer than 32 bytes or the value does not fit 32 bits.
\<close>

definition be_nat :: "bytes \<Rightarrow> nat" where
  "be_nat bs = foldl (\<lambda>acc b. acc * 256 + unat b) 0 bs"

definition abi_decode_uint32 :: "bytes \<Rightarrow> uint32 option" where
  "abi_decode_uint32 bs =
     (if length bs < 32 then None
      else let v = be_nat (take 32 bs) in
        if v < 2 ^ 32 then Some (of_nat v) else None)"

subsection \<open>Modifiers\<close>

definition onlyOwner :: "msg \<Rightarrow> stmt" where
  "onlyOwner m = revert_if (\<lambda>s. sender m \<noteq> owner s) NotOwner"

definition onlyProvider :: "msg \<Rightarrow> stmt" where
  "onlyProvider m = revert_if (\<lambda>s. \<not> isProvider s (sender m)) NotProvider"

definition whenNotPaused :: stmt where
  "whenNotPaused = revert_if paused PausedContract"

subsection \<open>Constructor and functions\<close>

definition constructor :: "msg \<Rightarrow> state" where
  "constructor m =
     \<lparr> owner = sender m,
       isProvider = (\<lambda>_. False),
       paused = False,
       cooldownSeconds = 60,
       lastSubmissionTime = (\<lambda>_. 0),
       lastDecryptionRequestTime = (\<lambda>_. 0),
       currentBatchId = 1,
       batchClosed = (\<lambda>_. False),
       decryptionContexts = (\<lambda>_. \<lparr>batchId = 0, stateHash = 0, processed = False\<rparr>),
       encryptedData = (\<lambda>_. 0),
       events = [OwnershipTransferred 0 (sender m), BatchOpened 1],
       decryptionRequests = [] \<rparr>"

definition transferOwnership :: "msg \<Rightarrow> address \<Rightarrow> stmt" where
  "transferOwnership m newOwner = block
     [onlyOwner m,
      emit (\<lambda>s. OwnershipTransferred (owner s) newOwner),
      assign (\<lambda>s. s\<lparr>owner := newOwner\<rparr>)]"

definition addProvider :: "msg \<Rightarrow> address \<Rightarrow> stmt" where
  "addProvider m provider = block
     [onlyOwner m,
      if_then (\<lambda>s. \<not> isProvider s provider) (block
        [assign (\<lambda>s. s\<lparr>isProvider := (isProvider s)(provider := True)\<rparr>),
         emit (\<lambda>_. ProviderAdded provider)])]"

definition removeProvider :: "msg \<Rightarrow> address \<Rightarrow> stmt" where
  "removeProvider m provider = block
     [onlyOwner m,
      if_then (\<lambda>s. isProvider s provider) (block
        [assign (\<lambda>s. s\<lparr>isProvider := (isProvider s)(provider := False)\<rparr>),
         emit (\<lambda>_. ProviderRemoved provider)])]"

definition pause :: "msg \<Rightarrow> stmt" where
  "pause m = block
     [onlyOwner m,
      whenNotPaused,
      assign (\<lambda>s. s\<lparr>paused := True\<rparr>),
      emit (\<lambda>_. Paused (sender m))]"

definition unpause :: "msg \<Rightarrow> stmt" where
  "unpause m = block
     [onlyOwner m,
      revert_if (\<lambda>s. \<not> paused s) PausedContract,
      assign (\<lambda>s. s\<lparr>paused := False\<rparr>),
      emit (\<lambda>_. Unpaused (sender m))]"

definition setCooldownSeconds :: "msg \<Rightarrow> uint256 \<Rightarrow> stmt" where
  "setCooldownSeconds m newCooldownSeconds = block
     [onlyOwner m,
      emit (\<lambda>s. CooldownSecondsSet (cooldownSeconds s) newCooldownSeconds),
      assign (\<lambda>s. s\<lparr>cooldownSeconds := newCooldownSeconds\<rparr>)]"

definition openNewBatch :: "msg \<Rightarrow> stmt" where
  "openNewBatch m = block
     [onlyOwner m,
      local_checked (\<lambda>s. checked_add (currentBatchId s) 1) Panic
        (\<lambda>n. assign (\<lambda>s. s\<lparr>currentBatchId := n\<rparr>)),
      emit (\<lambda>s. BatchOpened (currentBatchId s))]"

definition closeBatch :: "msg \<Rightarrow> uint256 \<Rightarrow> stmt" where
  "closeBatch m bid = block
     [onlyOwner m,
      revert_if (\<lambda>s. bid = 0 \<or> bid > currentBatchId s \<or> batchClosed s bid) InvalidBatchId,
      assign (\<lambda>s. s\<lparr>batchClosed := (batchClosed s)(bid := True)\<rparr>),
      emit (\<lambda>_. BatchClosed bid)]"

definition submitEncryptedData :: "msg \<Rightarrow> euint32 \<Rightarrow> stmt" where
  "submitEncryptedData m encryptedValue = block
     [onlyProvider m,
      whenNotPaused,
      local_checked (\<lambda>s. checked_add (lastSubmissionTime s (sender m)) (cooldownSeconds s)) Panic
        (\<lambda>deadline. revert_if (\<lambda>_. timestamp m < deadline) CooldownActive),
      revert_if (\<lambda>s. batchClosed s (currentBatchId s)) BatchClosedOrInvalid,
      assign (\<lambda>s. s\<lparr>lastSubmissionTime := (lastSubmissionTime s)(sender m := timestamp m)\<rparr>),
      assign (\<lambda>s. s\<lparr>encryptedData := (encryptedData s)(currentBatchId s := encryptedValue)\<rparr>),
      emit (\<lambda>s. DataSubmitted (sender m) (currentBatchId s) encryptedValue)]"

definition hashCiphertexts :: "externals \<Rightarrow> bytes32 list \<Rightarrow> bytes32" where
  "hashCiphertexts x cts = keccak256 x (abi_encode x cts (this_address x))"

text \<open>
  \<^verbatim>\<open>FHE.requestDecryption(cts, this.myCallback.selector)\<close> hands the handles and the
  callback to the decryption oracle, which registers the request and returns the id it
  assigns, or reverts (the library checks, for one, that the contract may decrypt the
  handles). The library and the oracle are not part of this repository, so what the call
  does is an input of the transaction: \<open>reply\<close> is \<open>None\<close> when the call reverts and
  the assigned request id when it returns.
\<close>

definition FHE_requestDecryption ::
  "uint256 option \<Rightarrow> bytes32 list \<Rightarrow> selector \<Rightarrow> (uint256 \<Rightarrow> stmt) \<Rightarrow> stmt" where
  "FHE_requestDecryption reply cts sel k s =
     (case reply of
        None \<Rightarrow> (Some RequestDecryptionReverted, s)
      | Some requestId \<Rightarrow>
          k requestId (s\<lparr>decryptionRequests := decryptionRequests s @ [(requestId, cts, sel)]\<rparr>))"

definition requestDecryptionForBatch ::
  "externals \<Rightarrow> msg \<Rightarrow> uint256 \<Rightarrow> uint256 option \<Rightarrow> stmt" where
  "requestDecryptionForBatch x m bid reply = block
     [onlyProvider m,
      whenNotPaused,
      local_checked
        (\<lambda>s. checked_add (lastDecryptionRequestTime s (sender m)) (cooldownSeconds s)) Panic
        (\<lambda>deadline. revert_if (\<lambda>_. timestamp m < deadline) CooldownActive),
      revert_if (\<lambda>s. bid = 0 \<or> bid > currentBatchId s \<or> \<not> batchClosed s bid) InvalidBatchId,
      assign (\<lambda>s. s\<lparr>lastDecryptionRequestTime :=
                      (lastDecryptionRequestTime s)(sender m := timestamp m)\<rparr>),
      local (\<lambda>s. encryptedData s bid) (\<lambda>dataToDecrypt.
      local (\<lambda>_. [toBytes32 dataToDecrypt]) (\<lambda>cts.
      local (\<lambda>_. hashCiphertexts x cts) (\<lambda>stHash.
      FHE_requestDecryption reply cts myCallback_selector (\<lambda>requestId. block
        [assign (\<lambda>s. s\<lparr>decryptionContexts := (decryptionContexts s)
            (requestId := \<lparr>batchId = bid, stateHash = stHash, processed = False\<rparr>)\<rparr>),
         emit (\<lambda>_. DecryptionRequested requestId bid)]))))]"

definition myCallback :: "externals \<Rightarrow> uint256 \<Rightarrow> bytes \<Rightarrow> bytes \<Rightarrow> stmt" where
  "myCallback x requestId cleartexts prf = block
     [revert_if (\<lambda>s. processed (decryptionContexts s requestId)) ReplayAttempt,
      local (\<lambda>s. decryptionContexts s requestId) (\<lambda>ctx.
      local (\<lambda>s. encryptedData s (batchId ctx)) (\<lambda>dataToDecrypt.
      local (\<lambda>_. [toBytes32 dataToDecrypt]) (\<lambda>cts.
      local (\<lambda>_. hashCiphertexts x cts) (\<lambda>currentHash. block
        [revert_if (\<lambda>_. currentHash \<noteq> stateHash ctx) StateMismatch,
         revert_if (\<lambda>_. \<not> checkSignatures x requestId cleartexts prf) InvalidSignatures,
         local_checked (\<lambda>_. abi_decode_uint32 cleartexts) AbiDecodeError (\<lambda>decryptedValue.
         local (\<lambda>_. ctx\<lparr>processed := True\<rparr>) (\<lambda>ctx'. block
           [assign (\<lambda>s. s\<lparr>decryptionContexts := (decryptionContexts s)(requestId := ctx')\<rparr>),
            emit (\<lambda>_. DecryptionCompleted requestId (batchId ctx') decryptedValue)]))]))))]"

subsection \<open>Transactions\<close>

text \<open>
  A call of the contract is a transaction: when the body reverts, the EVM discards the
  storage it reached and the caller sees the error only.
\<close>

definition transact :: "stmt \<Rightarrow> state \<Rightarrow> error + state" where
  "transact p s = (case p s of (None, s') \<Rightarrow> Inr s' | (Some e, _) \<Rightarrow> Inl e)"

datatype call =
    TransferOwnership address
  | AddProvider address
  | RemoveProvider address
  | Pause
  | Unpause
  | SetCooldownSeconds uint256
  | OpenNewBatch
  | CloseBatch uint256
  | SubmitEncryptedData euint32
  | RequestDecryptionForBatch uint256 "uint256 option"
  | MyCallback uint256 bytes bytes

fun body :: "externals \<Rightarrow> msg \<Rightarrow> call \<Rightarrow> stmt" where
  "body x m (TransferOwnership newOwner) = transferOwnership m newOwner"
| "body x m (AddProvider provider) = addProvider m provider"
| "body x m (RemoveProvider provider) = removeProvider m provider"
| "body x m Pause = pause m"
| "body x m Unpause = unpause m"
| "body x m (SetCooldownSeconds n) = setCooldownSeconds m n"
| "body x m OpenNewBatch = openNewBatch m"
| "body x m (CloseBatch bid) = closeBatch m bid"
| "body x m (SubmitEncryptedData v) = submitEncryptedData m v"
| "body x m (RequestDecryptionForBatch bid reply) = requestDecryptionForBatch x m bid reply"
| "body x m (MyCallback requestId cleartexts prf) = myCallback x requestId cleartexts prf"

text \<open>The storage after a transaction: unchanged when it reverted.\<close>

definition exec :: "externals \<Rightarrow> state \<Rightarrow> msg \<times> call \<Rightarrow> state" where
  "exec x s mc = (case transact (body x (fst mc) (snd mc)) s of Inl _ \<Rightarrow> s | Inr s' \<Rightarrow> s')"

definition run :: "externals \<Rightarrow> state \<Rightarrow> (msg \<times> call) list \<Rightarrow> state" where
  "run x s cs = foldl (exec x) s cs"

subsection \<open>Derived notions\<close>

text \<open>The functions that carry the modifier \<^verbatim>\<open>onlyOwner\<close>.\<close>

fun ownerOnly :: "call \<Rightarrow> bool" where
  "ownerOnly (SubmitEncryptedData v) = False"
| "ownerOnly (RequestDecryptionForBatch bid reply) = False"
| "ownerOnly (MyCallback requestId cleartexts prf) = False"
| "ownerOnly c = True"

text \<open>The hash \<^verbatim>\<open>requestDecryptionForBatch\<close> and \<^verbatim>\<open>myCallback\<close> compute for a batch.\<close>

definition hash_of_slot :: "externals \<Rightarrow> state \<Rightarrow> uint256 \<Rightarrow> bytes32" where
  "hash_of_slot x s b = hashCiphertexts x [toBytes32 (encryptedData s b)]"

text \<open>
  An invariant of the storage: the batch counter is never zero, a context that names a
  batch names a closed one, and a context that names a batch or is processed holds the
  hash of that batch's slot.
\<close>

definition consistent :: "externals \<Rightarrow> state \<Rightarrow> bool" where
  "consistent x s \<longleftrightarrow>
     currentBatchId s \<noteq> 0 \<and>
     (\<forall>r. batchId (decryptionContexts s r) \<noteq> 0 \<longrightarrow>
            batchClosed s (batchId (decryptionContexts s r))) \<and>
     (\<forall>r. processed (decryptionContexts s r) \<or> batchId (decryptionContexts s r) \<noteq> 0 \<longrightarrow>
            stateHash (decryptionContexts s r) =
            hash_of_slot x s (batchId (decryptionContexts s r)))"

text \<open>The context of a request id under which nothing was stored: all zero.\<close>

definition noContext :: DecryptionContext where
  "noContext = \<lparr>batchId = 0, stateHash = 0, processed = False\<rparr>"

subsection \<open>A concrete run\<close>

text \<open>
  Stand-ins for the external functions, to run the contract on concrete inputs: a toy
  hash, a toy encoding and a signature check that accepts the proof \<open>[1]\<close> only.
\<close>

definition demo_externals :: externals where
  "demo_externals =
     \<lparr> keccak256 = (\<lambda>bs. of_nat (be_nat bs) + 1),
       abi_encode = (\<lambda>cts a. map ucast cts @ [ucast a]),
       this_address = 192,
       checkSignatures = (\<lambda>requestId cleartexts prf. prf = [1]) \<rparr>"

text \<open>The ABI encoding of the \<^verbatim>\<open>uint32\<close> 5.\<close>

definition demo_cleartexts :: bytes where
  "demo_cleartexts =
     [0, 0, 0, 0, 0, 0, 0, 0, 0, 0, 0, 0, 0, 0, 0, 0,
      0, 0, 0, 0, 0, 0, 0, 0, 0, 0, 0, 0, 0, 0, 0, 5]"

text \<open>
  Address 1 deploys the contract and makes address 2 a provider, who submits the handle
  171 into batch 1; the owner closes batch 1 and the provider requests its decryption,
  which the oracle registers as request 7.
\<close>

definition demo_calls :: "(msg \<times> call) list" where
  "demo_calls =
     [(\<lparr>sender = 1, timestamp = 10\<rparr>, AddProvider 2),
      (\<lparr>sender = 2, timestamp = 100\<rparr>, SubmitEncryptedData 171),
      (\<lparr>sender = 1, timestamp = 110\<rparr>, CloseBatch 1),
      (\<lparr>sender = 2, timestamp = 200\<rparr>, RequestDecryptionForBatch 1 (Some 7))]"

definition demo_pending :: state where
  "demo_pending = run demo_externals (constructor \<lparr>sender = 1, timestamp = 0\<rparr>) demo_calls"

text \<open>The same run, after the callback of request 7 went through.\<close>

definition demo_done :: state where
  "demo_done = run demo_externals demo_pending
     [(\<lparr>sender = 3, timestamp = 250\<rparr>, MyCallback 7 demo_cleartexts [1])]"

text \<open>The same run, after the owner set the cooldown to \<^verbatim>\<open>type(uint256).max\<close>.\<close>

definition demo_max_cooldown :: state where
  "demo_max_cooldown = run demo_externals demo_pending
     [(\<lparr>sender = 1, timestamp = 210\<rparr>, SetCooldownSeconds (- 1))]"

text \<open>A fresh deployment in which the owner has opened a second batch.\<close>

definition demo_two_batches :: state where
  "demo_two_batches = run demo_externals (constructor \<lparr>sender = 1, timestamp = 0\<rparr>)
     [(\<lparr>sender = 1, timestamp = 5\<rparr>, OpenNewBatch)]"

text \<open>The concrete run after its first two transactions: batch 1 is still open.\<close>

definition demo_submitted :: state where
  "demo_submitted = run demo_externals (constructor \<lparr>sender = 1, timestamp = 0\<rparr>)
     (take 2 demo_calls)"

section \<open>Properties\<close>

subsection \<open>Auxiliary facts\<close>

lemmas stmt_defs = revert_if_def assign_def emit_def if_then_def seq_def local_def
  local_checked_def FHE_requestDecryption_def onlyOwner_def onlyProvider_def whenNotPaused_def

lemmas fun_defs = transferOwnership_def addProvider_def removeProvider_def pause_def
  unpause_def setCooldownSeconds_def openNewBatch_def closeBatch_def submitEncryptedData_def
  requestDecryptionForBatch_def myCallback_def

lemmas exec_defs = exec_def transact_def fun_defs stmt_defs

lemma run_Nil: "run x s [] = s"
  by (simp add: run_def)

lemma run_Cons: "run x s (mc # cs) = run x (exec x s mc) cs"
  by (simp add: run_def)

text \<open>No overflow: the checked sum is the sum, and comparing with it compares numbers.\<close>

lemma checked_add_Some:
  "unat a + unat b < 2 ^ 256 \<Longrightarrow> checked_add a b = Some (a + b)"
  by (simp add: checked_add_def)

lemma checked_add_None:
  "2 ^ 256 \<le> unat a + unat b \<Longrightarrow> checked_add a b = None"
  by (simp add: checked_add_def)

lemma unat_lt_2p256: "unat (a :: uint256) < 2 ^ 256"
  using unsigned_less [of a, where ?'a = nat] by simp

lemma less_checked_sum:
  assumes "unat a + unat b < 2 ^ 256"
  shows "(t < a + b) = (unat t < unat a + unat (b :: uint256))"
proof -
  from assms have "unat a + unat b < 2 ^ LENGTH(256)" by simp
  then have "unat (a + b) = unat a + unat b" by (simp only: unat_add_lem)
  then show ?thesis by (simp add: word_less_nat_alt)
qed

lemma checked_add_one_nonzero:
  assumes "checked_add a 1 = Some n"
  shows "n \<noteq> 0"
proof -
  from assms have lt: "unat a + unat (1 :: uint256) < 2 ^ LENGTH(256)" and n: "n = a + 1"
    by (auto simp: checked_add_def split: if_splits)
  from lt have "unat (a + 1) = unat a + unat (1 :: uint256)"
    by (simp only: unat_add_lem)
  then have "unat n \<noteq> 0" using n by simp
  then show ?thesis by (simp add: unat_eq_zero)
qed

text \<open>What each kind of transaction can do to the storage.\<close>

lemma exec_batchClosed_mono: "batchClosed s b \<Longrightarrow> batchClosed (exec x s mc) b"
  by (cases "snd mc") (auto simp: exec_defs split: if_splits option.splits)

lemma run_batchClosed_mono: "batchClosed s b \<Longrightarrow> batchClosed (run x s cs) b"
  by (induction cs arbitrary: s) (simp_all add: run_Nil run_Cons exec_batchClosed_mono)

lemma exec_encryptedData:
  "encryptedData (exec x s mc) b \<noteq> encryptedData s b \<Longrightarrow>
     b = currentBatchId s \<and> \<not> batchClosed s b \<and>
     (\<exists>v. snd mc = SubmitEncryptedData v \<and> encryptedData (exec x s mc) b = v)"
  by (cases "snd mc") (auto simp: exec_defs split: if_splits option.splits)

lemma run_encryptedData_closed:
  "batchClosed s b \<Longrightarrow> encryptedData (run x s cs) b = encryptedData s b"
proof (induction cs arbitrary: s)
  case Nil
  then show ?case by (simp add: run_Nil)
next
  case (Cons mc cs)
  have "encryptedData (exec x s mc) b = encryptedData s b"
    using exec_encryptedData [of x s mc b] Cons.prems by blast
  moreover have "batchClosed (exec x s mc) b"
    using Cons.prems by (rule exec_batchClosed_mono)
  ultimately show ?case using Cons.IH [of "exec x s mc"] by (simp add: run_Cons)
qed

lemma exec_processed_mono:
  "processed (decryptionContexts s r) \<Longrightarrow> \<forall>b. snd mc \<noteq> RequestDecryptionForBatch b (Some r) \<Longrightarrow>
     processed (decryptionContexts (exec x s mc) r)"
  by (cases "snd mc") (auto simp: exec_defs split: if_splits option.splits)

lemma run_processed_mono:
  "processed (decryptionContexts s r) \<Longrightarrow>
   \<forall>mc \<in> set cs. \<forall>b. snd mc \<noteq> RequestDecryptionForBatch b (Some r) \<Longrightarrow>
     processed (decryptionContexts (run x s cs) r)"
  by (induction cs arbitrary: s) (simp_all add: run_Nil run_Cons exec_processed_mono)

lemma exec_owner: "sender (fst mc) \<noteq> owner s \<Longrightarrow> owner (exec x s mc) = owner s"
  by (cases "snd mc") (auto simp: exec_defs split: if_splits option.splits)

lemma run_owner:
  "\<forall>mc \<in> set cs. sender (fst mc) \<noteq> owner s \<Longrightarrow> owner (run x s cs) = owner s"
  by (induction cs arbitrary: s) (simp_all add: run_Nil run_Cons exec_owner)

lemma exec_paused:
  "paused (exec x s (m, c)) \<noteq> paused s \<Longrightarrow> sender m = owner s \<and> (c = Pause \<or> c = Unpause)"
  by (cases c) (auto simp: exec_defs split: if_splits option.splits)

lemma ownerOnly_NotOwner:
  "ownerOnly c \<Longrightarrow> sender m \<noteq> owner s \<Longrightarrow> transact (body x m c) s = Inl NotOwner"
  by (cases c) (simp_all add: transact_def fun_defs stmt_defs)

text \<open>The invariant holds after the constructor and every transaction keeps it.\<close>

lemma consistent_constructor: "consistent x (constructor m)"
  by (simp add: consistent_def constructor_def)

lemma submit_exec:
  "exec x s (m, SubmitEncryptedData v) = s \<or>
   (\<not> batchClosed s (currentBatchId s) \<and>
    exec x s (m, SubmitEncryptedData v) =
      s\<lparr>lastSubmissionTime := (lastSubmissionTime s)(sender m := timestamp m),
        encryptedData := (encryptedData s)(currentBatchId s := v),
        events := events s @ [DataSubmitted (sender m) (currentBatchId s) v]\<rparr>)"
  by (auto simp: exec_defs split: if_splits option.splits)

lemma callback_exec:
  "exec x s (m, MyCallback r c p) = s \<or>
   (\<not> processed (decryptionContexts s r) \<and>
    stateHash (decryptionContexts s r) = hash_of_slot x s (batchId (decryptionContexts s r)) \<and>
    (\<exists>v. exec x s (m, MyCallback r c p) =
      s\<lparr>decryptionContexts :=
          (decryptionContexts s)(r := (decryptionContexts s r)\<lparr>processed := True\<rparr>),
        events := events s @ [DecryptionCompleted r (batchId (decryptionContexts s r)) v]\<rparr>))"
  by (simp add: exec_defs hash_of_slot_def split: option.splits) blast

lemma submit_consistent:
  assumes "consistent x s"
  shows "consistent x (exec x s (m, SubmitEncryptedData v))"
proof -
  from assms have cur: "currentBatchId s \<noteq> 0"
    and closed: "\<And>r. batchId (decryptionContexts s r) \<noteq> 0 \<Longrightarrow>
                   batchClosed s (batchId (decryptionContexts s r))"
    and hash: "\<And>r. processed (decryptionContexts s r) \<or> batchId (decryptionContexts s r) \<noteq> 0 \<Longrightarrow>
                 stateHash (decryptionContexts s r) =
                 hash_of_slot x s (batchId (decryptionContexts s r))"
    unfolding consistent_def by blast+
  consider "exec x s (m, SubmitEncryptedData v) = s"
    | "\<not> batchClosed s (currentBatchId s)"
      "exec x s (m, SubmitEncryptedData v) =
        s\<lparr>lastSubmissionTime := (lastSubmissionTime s)(sender m := timestamp m),
          encryptedData := (encryptedData s)(currentBatchId s := v),
          events := events s @ [DataSubmitted (sender m) (currentBatchId s) v]\<rparr>"
    using submit_exec [of x s m v] by blast
  then show ?thesis
  proof cases
    case 1
    then show ?thesis using assms by simp
  next
    case 2
    have other: "batchId (decryptionContexts s r) \<noteq> currentBatchId s"
      if "processed (decryptionContexts s r) \<or> batchId (decryptionContexts s r) \<noteq> 0" for r
      using that closed [of r] cur 2(1) by metis
    show ?thesis
      unfolding 2(2) consistent_def hash_of_slot_def
      using cur closed hash other by (simp add: hash_of_slot_def)
  qed
qed

lemma callback_consistent:
  assumes "consistent x s"
  shows "consistent x (exec x s (m, MyCallback r c p))"
proof -
  consider "exec x s (m, MyCallback r c p) = s"
    | v where "stateHash (decryptionContexts s r) =
                 hash_of_slot x s (batchId (decryptionContexts s r))"
      "exec x s (m, MyCallback r c p) =
        s\<lparr>decryptionContexts :=
            (decryptionContexts s)(r := (decryptionContexts s r)\<lparr>processed := True\<rparr>),
          events := events s @ [DecryptionCompleted r (batchId (decryptionContexts s r)) v]\<rparr>"
    using callback_exec [of x s m r c p] by blast
  then show ?thesis
  proof cases
    case 1
    then show ?thesis using assms by simp
  next
    case 2
    show ?thesis
      unfolding 2(2) using assms 2(1) by (simp add: consistent_def hash_of_slot_def)
  qed
qed

lemma exec_consistent:
  assumes "consistent x s"
  shows "consistent x (exec x s mc)"
proof (cases "snd mc")
  case (SubmitEncryptedData v)
  then have "mc = (fst mc, SubmitEncryptedData v)" by (simp add: prod_eq_iff)
  then show ?thesis using submit_consistent [OF assms, of "fst mc" v] by simp
next
  case (MyCallback r c p)
  then have "mc = (fst mc, MyCallback r c p)" by (simp add: prod_eq_iff)
  then show ?thesis using callback_consistent [OF assms, of "fst mc" r c p] by simp
next
  case OpenNewBatch
  then show ?thesis using assms
    by (auto simp: consistent_def hash_of_slot_def exec_defs dest: checked_add_one_nonzero
        split: if_splits option.splits)
qed (use assms in \<open>auto simp: consistent_def hash_of_slot_def exec_defs
       split: if_splits option.splits\<close>)

lemma run_consistent: "consistent x s \<Longrightarrow> consistent x (run x s cs)"
  by (induction cs arbitrary: s) (simp_all add: run_Nil run_Cons exec_consistent)

text \<open>The concrete run, evaluated.\<close>

lemma demo_hash_171: "hashCiphertexts demo_externals [171] = 43969"
  by (simp add: hashCiphertexts_def demo_externals_def be_nat_def)

lemma demo_hash_0: "hashCiphertexts demo_externals [0] = 193"
  by (simp add: hashCiphertexts_def demo_externals_def be_nat_def)

lemma demo_decode: "abi_decode_uint32 demo_cleartexts = Some 5"
  by (simp add: abi_decode_uint32_def demo_cleartexts_def be_nat_def)

lemma demo_checkSignatures: "checkSignatures demo_externals r c p = (p = [1])"
  by (simp add: demo_externals_def)

lemma checked_add_0_60: "checked_add 0 60 = Some 60"
  by (simp add: checked_add_def)

lemma checked_add_max: "checked_add 100 (- 1) = None" "checked_add 200 (- 1) = None"
  by (simp_all add: checked_add_def unsigned_minus_1_eq_mask mask_eq_exp_minus_1)

lemma demo_pending_eq:
  "demo_pending =
     \<lparr> owner = 1,
       isProvider = (\<lambda>_. False)(2 := True),
       paused = False,
       cooldownSeconds = 60,
       lastSubmissionTime = (\<lambda>_. 0)(2 := 100),
       lastDecryptionRequestTime = (\<lambda>_. 0)(2 := 200),
       currentBatchId = 1,
       batchClosed = (\<lambda>_. False)(1 := True),
       decryptionContexts = (\<lambda>_. \<lparr>batchId = 0, stateHash = 0, processed = False\<rparr>)
          (7 := \<lparr>batchId = 1, stateHash = 43969, processed = False\<rparr>),
       encryptedData = (\<lambda>_. 0)(1 := 171),
       events = [OwnershipTransferred 0 1, BatchOpened 1, ProviderAdded 2,
                 DataSubmitted 2 1 171, BatchClosed 1, DecryptionRequested 7 1],
       decryptionRequests = [(7, [171], myCallback_selector)] \<rparr>"
  by (simp add: demo_pending_def demo_calls_def run_def constructor_def exec_defs
      checked_add_0_60 demo_hash_171 toBytes32_def)

lemma demo_callback:
  "transact (myCallback demo_externals 7 demo_cleartexts [1]) demo_pending =
     Inr (demo_pending
       \<lparr>decryptionContexts := (decryptionContexts demo_pending)
          (7 := \<lparr>batchId = 1, stateHash = 43969, processed = True\<rparr>),
        events := events demo_pending @ [DecryptionCompleted 7 1 5]\<rparr>)"
  by (simp add: demo_pending_eq transact_def myCallback_def stmt_defs demo_hash_171 demo_decode
      demo_checkSignatures toBytes32_def)

lemma demo_done_eq:
  "demo_done = demo_pending
     \<lparr>decryptionContexts := (decryptionContexts demo_pending)
        (7 := \<lparr>batchId = 1, stateHash = 43969, processed = True\<rparr>),
      events := events demo_pending @ [DecryptionCompleted 7 1 5]\<rparr>"
  by (simp add: demo_done_def run_def exec_def demo_callback)

lemma demo_max_cooldown_eq:
  "demo_max_cooldown = demo_pending
     \<lparr>events := events demo_pending @ [CooldownSecondsSet 60 (- 1)], cooldownSeconds := - 1\<rparr>"
  by (simp add: demo_max_cooldown_def run_def demo_pending_eq exec_defs)

lemma checked_add_1_1: "checked_add 1 1 = Some 2" "checked_add 2 1 = Some 3"
  by (simp_all add: checked_add_def)

lemma demo_two_batches_eq:
  "demo_two_batches =
     (constructor \<lparr>sender = 1, timestamp = 0\<rparr>)
       \<lparr>currentBatchId := 2,
        events := [OwnershipTransferred 0 1, BatchOpened 1, BatchOpened 2]\<rparr>"
  by (simp add: demo_two_batches_def run_def constructor_def exec_defs checked_add_1_1)

lemma checked_add_100_60: "checked_add 100 60 = Some 160"
  by (simp add: checked_add_def)

lemma checked_add_200_60: "checked_add 200 60 = Some 260"
  by (simp add: checked_add_def)

text \<open>A request id under which no request is stored keeps the all-zero context.\<close>

lemma exec_noContext:
  assumes "currentBatchId s \<noteq> 0 \<and> encryptedData s 0 = 0 \<and> decryptionContexts s r = noContext"
    and "hashCiphertexts x [toBytes32 0] \<noteq> 0"
    and "\<forall>b. snd mc \<noteq> RequestDecryptionForBatch b (Some r)"
  shows "currentBatchId (exec x s mc) \<noteq> 0 \<and> encryptedData (exec x s mc) 0 = 0 \<and>
         decryptionContexts (exec x s mc) r = noContext"
  using assms
  by (cases "snd mc")
    (auto simp: exec_defs noContext_def dest: checked_add_one_nonzero
      split: if_splits option.splits)

lemma run_noContext:
  assumes "currentBatchId s \<noteq> 0 \<and> encryptedData s 0 = 0 \<and> decryptionContexts s r = noContext"
    and "hashCiphertexts x [toBytes32 0] \<noteq> 0"
    and "\<forall>mc \<in> set cs. \<forall>b. snd mc \<noteq> RequestDecryptionForBatch b (Some r)"
  shows "currentBatchId (run x s cs) \<noteq> 0 \<and> encryptedData (run x s cs) 0 = 0 \<and>
         decryptionContexts (run x s cs) r = noContext"
  using assms
proof (induction cs arbitrary: s)
  case Nil
  then show ?case by (simp add: run_Nil)
next
  case (Cons mc cs)
  have "currentBatchId (exec x s mc) \<noteq> 0 \<and> encryptedData (exec x s mc) 0 = 0 \<and>
      decryptionContexts (exec x s mc) r = noContext"
    using Cons.prems by (intro exec_noContext) simp_all
  then show ?case using Cons.IH [of "exec x s mc"] Cons.prems by (simp add: run_Cons)
qed

lemma demo_submitted_eq:
  "demo_submitted =
     (constructor \<lparr>sender = 1, timestamp = 0\<rparr>)
       \<lparr>isProvider := (\<lambda>_. False)(2 := True),
        lastSubmissionTime := (\<lambda>_. 0)(2 := 100),
        encryptedData := (\<lambda>_. 0)(1 := 171),
        events := [OwnershipTransferred 0 1, BatchOpened 1, ProviderAdded 2,
                   DataSubmitted 2 1 171]\<rparr>"
  by (simp add: demo_submitted_def demo_calls_def run_def constructor_def exec_defs
      checked_add_0_60)

lemma sum_le_no_overflow:
  "unat a + unat b \<le> unat (t :: uint256) \<Longrightarrow> unat a + unat b < 2 ^ 256"
  using unat_lt_2p256 [of t] by simp

lemma checked_add_reached:
  assumes "unat a + unat b \<le> unat (t :: uint256)"
  shows "checked_add a b = Some (a + b) \<and> \<not> t < a + b"
proof -
  have lt: "unat a + unat b < 2 ^ 256"
    using assms by (rule sum_le_no_overflow)
  then have "(t < a + b) = (unat t < unat a + unat b)"
    by (rule less_checked_sum)
  then show ?thesis using assms lt by (simp add: checked_add_Some)
qed

subsection \<open>Replay protection\<close>

text \<open>
  Claim C1. Once \<^verbatim>\<open>myCallback\<close> has gone through for a request id, the request is
  marked processed, and every later call of \<^verbatim>\<open>myCallback\<close> with that id reverts with
  \<^verbatim>\<open>ReplayAttempt\<close>, whatever cleartexts and proof it brings and whatever transactions
  ran in between, as long as the oracle does not hand out that request id again. The
  replay check is the first statement of the function.
\<close>

theorem myCallback_at_most_once:
  assumes "transact (myCallback x requestId cleartexts prf) s = Inr s1"
    and "\<forall>mc \<in> set cs. \<forall>b. snd mc \<noteq> RequestDecryptionForBatch b (Some requestId)"
  shows "processed (decryptionContexts s1 requestId) \<and>
         transact (myCallback x requestId cleartexts' prf') (run x s1 cs) = Inl ReplayAttempt"
proof -
  from assms(1) have proc: "processed (decryptionContexts s1 requestId)"
    by (auto simp: transact_def myCallback_def stmt_defs split: if_splits option.splits)
  then have "processed (decryptionContexts (run x s1 cs) requestId)"
    using assms(2) by (rule run_processed_mono)
  then have "transact (myCallback x requestId cleartexts' prf') (run x s1 cs) = Inl ReplayAttempt"
    by (simp add: transact_def myCallback_def stmt_defs)
  with proc show ?thesis by simp
qed

theorem myCallback_at_most_once_witness:
  "transact (myCallback demo_externals 7 demo_cleartexts [1]) demo_pending = Inr demo_done \<and>
   processed (decryptionContexts demo_done 7) \<and>
   transact (myCallback demo_externals 7 [] [])
     (run demo_externals demo_done
        [(\<lparr>sender = 2, timestamp = 300\<rparr>, RequestDecryptionForBatch 1 (Some 8)),
         (\<lparr>sender = 3, timestamp = 310\<rparr>, MyCallback 8 demo_cleartexts [1])]) = Inl ReplayAttempt"
proof -
  have first: "transact (myCallback demo_externals 7 demo_cleartexts [1]) demo_pending =
      Inr demo_done"
    by (simp add: demo_callback demo_done_eq)
  have fresh: "\<forall>mc \<in> set [(\<lparr>sender = 2, timestamp = 300\<rparr>, RequestDecryptionForBatch 1 (Some 8)),
        (\<lparr>sender = 3, timestamp = 310\<rparr>, MyCallback 8 demo_cleartexts [1])].
      \<forall>b. snd mc \<noteq> RequestDecryptionForBatch b (Some 7)"
    by simp
  show ?thesis
    using myCallback_at_most_once [OF first fresh, of "[]" "[]"] first by simp
qed

subsection \<open>Reverts come before mutations\<close>



subsection \<open>Closing a batch\<close>

text \<open>
  Claim C7. Called by the owner, \<^verbatim>\<open>closeBatch(id)\<close> reverts with \<^verbatim>\<open>InvalidBatchId\<close>
  exactly when the id is 0, above the batch counter or already closed; otherwise it marks
  that batch closed (whether or not it is the current batch) and logs it. No transaction
  reopens a batch, so after a successful \<^verbatim>\<open>closeBatch(id)\<close> every later
  \<^verbatim>\<open>closeBatch(id)\<close> by the owner reverts with \<^verbatim>\<open>InvalidBatchId\<close>.
\<close>

theorem closeBatch_one_way:
  assumes "sender m = owner s"
  shows "(transact (closeBatch m bid) s = Inl InvalidBatchId \<longleftrightarrow>
            bid = 0 \<or> currentBatchId s < bid \<or> batchClosed s bid) \<and>
         (bid \<noteq> 0 \<and> bid \<le> currentBatchId s \<and> \<not> batchClosed s bid \<longrightarrow>
            transact (closeBatch m bid) s =
              Inr (s\<lparr>batchClosed := (batchClosed s)(bid := True),
                     events := events s @ [BatchClosed bid]\<rparr>)) \<and>
         (transact (closeBatch m bid) s = Inr s1 \<and> sender m' = owner (run x s1 cs) \<longrightarrow>
            batchClosed (run x s1 cs) bid \<and>
            transact (closeBatch m' bid) (run x s1 cs) = Inl InvalidBatchId)"
proof (intro conjI impI)
  show "transact (closeBatch m bid) s = Inl InvalidBatchId \<longleftrightarrow>
          bid = 0 \<or> currentBatchId s < bid \<or> batchClosed s bid"
    using assms by (auto simp: transact_def closeBatch_def stmt_defs)
next
  assume "bid \<noteq> 0 \<and> bid \<le> currentBatchId s \<and> \<not> batchClosed s bid"
  then show "transact (closeBatch m bid) s =
      Inr (s\<lparr>batchClosed := (batchClosed s)(bid := True), events := events s @ [BatchClosed bid]\<rparr>)"
    using assms by (auto simp: transact_def closeBatch_def stmt_defs)
next
  assume a: "transact (closeBatch m bid) s = Inr s1 \<and> sender m' = owner (run x s1 cs)"
  then have "batchClosed s1 bid"
    by (auto simp: transact_def closeBatch_def stmt_defs split: if_splits)
  then show closed: "batchClosed (run x s1 cs) bid"
    by (rule run_batchClosed_mono)
  show "transact (closeBatch m' bid) (run x s1 cs) = Inl InvalidBatchId"
    using a closed by (simp add: transact_def closeBatch_def stmt_defs)
qed


theorem closeBatch_one_way_witness:
  "sender \<lparr>sender = 1, timestamp = 10\<rparr> = owner demo_two_batches \<and>
   currentBatchId demo_two_batches = 2 \<and>
   transact (closeBatch \<lparr>sender = 1, timestamp = 10\<rparr> 1) demo_two_batches =
     Inr (demo_two_batches\<lparr>batchClosed := (batchClosed demo_two_batches)(1 := True),
            events := events demo_two_batches @ [BatchClosed 1]\<rparr>) \<and>
   transact (closeBatch \<lparr>sender = 1, timestamp = 30\<rparr> 1)
     (run demo_externals
        (demo_two_batches\<lparr>batchClosed := (batchClosed demo_two_batches)(1 := True),
            events := events demo_two_batches @ [BatchClosed 1]\<rparr>)
        [(\<lparr>sender = 1, timestamp = 20\<rparr>, OpenNewBatch)]) = Inl InvalidBatchId \<and>
   transact (closeBatch \<lparr>sender = 1, timestamp = 10\<rparr> 3) demo_two_batches = Inl InvalidBatchId"
proof -
  let ?m = "\<lparr>sender = 1, timestamp = 10\<rparr> :: msg"
  let ?m' = "\<lparr>sender = 1, timestamp = 30\<rparr> :: msg"
  let ?s1 = "demo_two_batches\<lparr>batchClosed := (batchClosed demo_two_batches)(1 := True),
            events := events demo_two_batches @ [BatchClosed 1]\<rparr>"
  let ?cs = "[(\<lparr>sender = 1, timestamp = 20\<rparr> :: msg, OpenNewBatch)]"
  have own: "sender ?m = owner demo_two_batches"
    by (simp add: demo_two_batches_eq constructor_def)
  have cur: "currentBatchId demo_two_batches = 2"
    by (simp add: demo_two_batches_eq)
  have open1: "(1 :: uint256) \<noteq> 0 \<and> 1 \<le> currentBatchId demo_two_batches \<and>
      \<not> batchClosed demo_two_batches 1"
    by (simp add: demo_two_batches_eq constructor_def)
  have ok: "transact (closeBatch ?m 1) demo_two_batches = Inr ?s1"
    using closeBatch_one_way [OF own, of 1] open1 by blast
  have own': "sender ?m' = owner (run demo_externals ?s1 ?cs)"
    by (simp add: run_def demo_two_batches_eq constructor_def exec_defs checked_add_1_1)
  have again: "transact (closeBatch ?m' 1) (run demo_externals ?s1 ?cs) = Inl InvalidBatchId"
    using closeBatch_one_way [OF own, of 1 ?s1 ?m' demo_externals ?cs] ok own' by blast
  have "(3 :: uint256) = 0 \<or> currentBatchId demo_two_batches < 3 \<or> batchClosed demo_two_batches 3"
    by (simp add: cur)
  then have above: "transact (closeBatch ?m 3) demo_two_batches = Inl InvalidBatchId"
    using closeBatch_one_way [OF own, of 3] by blast
  show ?thesis using own cur ok again above by simp
qed

subsection \<open>Pausing\<close>

text \<open>
  Claim C8. \<^verbatim>\<open>pause\<close> and \<^verbatim>\<open>unpause\<close> are for the owner only. Called by the owner,
  \<^verbatim>\<open>pause\<close> reverts when the contract is paused and sets the flag otherwise, and
  \<^verbatim>\<open>unpause\<close> reverts when the contract is not paused and clears the flag otherwise; the
  contract has one error for both reverts, \<^verbatim>\<open>PausedContract\<close>. No other transaction
  changes the flag.
\<close>

theorem pause_unpause_state_machine:
  "(sender m = owner s \<and> paused s \<longrightarrow> transact (pause m) s = Inl PausedContract) \<and>
   (sender m = owner s \<and> \<not> paused s \<longrightarrow>
      transact (pause m) s = Inr (s\<lparr>paused := True, events := events s @ [Paused (sender m)]\<rparr>)) \<and>
   (sender m = owner s \<and> \<not> paused s \<longrightarrow> transact (unpause m) s = Inl PausedContract) \<and>
   (sender m = owner s \<and> paused s \<longrightarrow>
      transact (unpause m) s =
        Inr (s\<lparr>paused := False, events := events s @ [Unpaused (sender m)]\<rparr>)) \<and>
   (sender m \<noteq> owner s \<longrightarrow>
      transact (pause m) s = Inl NotOwner \<and> transact (unpause m) s = Inl NotOwner) \<and>
   (paused (exec x s (m, c)) \<noteq> paused s \<longrightarrow>
      sender m = owner s \<and> (c = Pause \<or> c = Unpause))"
proof (intro conjI impI)
  assume "paused (exec x s (m, c)) \<noteq> paused s"
  then have "sender m = owner s \<and> (c = Pause \<or> c = Unpause)" by (rule exec_paused)
  then show "sender m = owner s" and "c = Pause \<or> c = Unpause" by simp_all
qed (simp_all add: transact_def pause_def unpause_def stmt_defs)

theorem pause_unpause_state_machine_witness:
  "transact (pause \<lparr>sender = 1, timestamp = 300\<rparr>) demo_pending =
     Inr (demo_pending\<lparr>paused := True, events := events demo_pending @ [Paused 1]\<rparr>) \<and>
   transact (pause \<lparr>sender = 1, timestamp = 310\<rparr>)
     (demo_pending\<lparr>paused := True, events := events demo_pending @ [Paused 1]\<rparr>) =
     Inl PausedContract \<and>
   transact (unpause \<lparr>sender = 1, timestamp = 300\<rparr>) demo_pending = Inl PausedContract \<and>
   transact (unpause \<lparr>sender = 1, timestamp = 310\<rparr>)
     (demo_pending\<lparr>paused := True, events := events demo_pending @ [Paused 1]\<rparr>) =
     Inr (demo_pending\<lparr>paused := False,
            events := events demo_pending @ [Paused 1, Unpaused 1]\<rparr>) \<and>
   transact (pause \<lparr>sender = 2, timestamp = 300\<rparr>) demo_pending = Inl NotOwner \<and>
   paused (exec demo_externals demo_pending (\<lparr>sender = 1, timestamp = 300\<rparr>, Pause)) \<noteq>
     paused demo_pending"
proof -
  let ?p = "demo_pending\<lparr>paused := True, events := events demo_pending @ [Paused 1]\<rparr>"
  have a: "sender \<lparr>sender = 1, timestamp = 300\<rparr> = owner demo_pending \<and> \<not> paused demo_pending"
    by (simp add: demo_pending_eq)
  have b: "sender \<lparr>sender = 1, timestamp = 310\<rparr> = owner ?p \<and> paused ?p"
    by (simp add: demo_pending_eq)
  have c: "sender \<lparr>sender = 2, timestamp = 300\<rparr> \<noteq> owner demo_pending"
    by (simp add: demo_pending_eq)
  have d: "paused (exec demo_externals demo_pending (\<lparr>sender = 1, timestamp = 300\<rparr>, Pause)) \<noteq>
      paused demo_pending"
    by (simp add: demo_pending_eq exec_defs)
  show ?thesis
    using pause_unpause_state_machine [of "\<lparr>sender = 1, timestamp = 300\<rparr>" demo_pending
        demo_externals Pause]
      pause_unpause_state_machine [of "\<lparr>sender = 1, timestamp = 310\<rparr>" ?p demo_externals Pause]
      pause_unpause_state_machine [of "\<lparr>sender = 2, timestamp = 300\<rparr>" demo_pending
        demo_externals Pause]
      a b c d
    by simp
qed

subsection \<open>Writes to the encrypted slots\<close>

text \<open>
  Claim C9. A transaction changes the encrypted slot of a batch only if it is a
  \<^verbatim>\<open>submitEncryptedData\<close> and that batch is the current batch and not closed; the
  slot then holds the submitted value. A closed batch stays closed, so from any state in
  which a batch is closed, no sequence of transactions changes its slot.
\<close>

theorem encryptedData_written_only_while_current_and_open:
  "(encryptedData (exec x s (m, c)) b \<noteq> encryptedData s b \<longrightarrow>
      b = currentBatchId s \<and> \<not> batchClosed s b \<and>
      (\<exists>v. c = SubmitEncryptedData v \<and> encryptedData (exec x s (m, c)) b = v)) \<and>
   (batchClosed s b \<longrightarrow>
      batchClosed (run x s cs) b \<and> encryptedData (run x s cs) b = encryptedData s b)"
  using exec_encryptedData [of x s "(m, c)" b] run_batchClosed_mono [of s b x cs]
    run_encryptedData_closed [of s b x cs]
  by simp

theorem encryptedData_written_only_while_current_and_open_witness:
  "encryptedData (exec demo_externals
      (run demo_externals demo_pending [(\<lparr>sender = 1, timestamp = 300\<rparr>, OpenNewBatch)])
      (\<lparr>sender = 2, timestamp = 400\<rparr>, SubmitEncryptedData 99)) 2 = 99 \<and>
   encryptedData
      (run demo_externals demo_pending [(\<lparr>sender = 1, timestamp = 300\<rparr>, OpenNewBatch)]) 2 = 0 \<and>
   currentBatchId
      (run demo_externals demo_pending [(\<lparr>sender = 1, timestamp = 300\<rparr>, OpenNewBatch)]) = 2 \<and>
   \<not> batchClosed
      (run demo_externals demo_pending [(\<lparr>sender = 1, timestamp = 300\<rparr>, OpenNewBatch)]) 2 \<and>
   batchClosed demo_pending 1 \<and>
   encryptedData (run demo_externals demo_pending
      [(\<lparr>sender = 1, timestamp = 300\<rparr>, OpenNewBatch),
       (\<lparr>sender = 2, timestamp = 400\<rparr>, SubmitEncryptedData 99)]) 1 = 171"
proof -
  let ?opened = "run demo_externals demo_pending [(\<lparr>sender = 1, timestamp = 300\<rparr>, OpenNewBatch)]"
  let ?m = "\<lparr>sender = 2, timestamp = 400\<rparr> :: msg"
  let ?cs = "[(\<lparr>sender = 1, timestamp = 300\<rparr> :: msg, OpenNewBatch),
       (\<lparr>sender = 2, timestamp = 400\<rparr>, SubmitEncryptedData 99)]"
  have opened: "?opened = demo_pending
      \<lparr>currentBatchId := 2, events := events demo_pending @ [BatchOpened 2]\<rparr>"
    by (simp add: run_def demo_pending_eq exec_defs checked_add_1_1)
  have before: "encryptedData ?opened 2 = 0"
    unfolding opened by (simp add: demo_pending_eq)
  have after: "encryptedData (exec demo_externals ?opened (?m, SubmitEncryptedData 99)) 2 = 99"
    unfolding opened by (simp add: demo_pending_eq exec_defs checked_add_100_60)
  have changed: "encryptedData (exec demo_externals ?opened (?m, SubmitEncryptedData 99)) 2 \<noteq>
      encryptedData ?opened 2"
    by (simp only: before after) simp
  have closed: "batchClosed demo_pending 1" and slot: "encryptedData demo_pending 1 = 171"
    by (simp_all add: demo_pending_eq)
  have "(2 :: uint256) = currentBatchId ?opened \<and> \<not> batchClosed ?opened 2"
    using encryptedData_written_only_while_current_and_open
        [of demo_externals ?opened ?m "SubmitEncryptedData 99" 2] changed
    by blast
  moreover have "encryptedData (run demo_externals demo_pending ?cs) 1 = 171"
    using encryptedData_written_only_while_current_and_open
        [of demo_externals demo_pending ?m "SubmitEncryptedData 99" 1 ?cs] closed slot
    by simp
  ultimately show ?thesis using before after closed by simp
qed

subsection \<open>Transfer of ownership\<close>

text \<open>
  Claim C10. Called by the owner, \<^verbatim>\<open>transferOwnership(newOwner)\<close> succeeds for every
  address \<open>newOwner\<close>, the zero address and the owner's own included: it logs the
  transfer and makes \<open>newOwner\<close> the owner, nothing else. From then on every function
  with the modifier \<^verbatim>\<open>onlyOwner\<close> reverts with \<^verbatim>\<open>NotOwner\<close> for every caller other
  than \<open>newOwner\<close> (so for the previous owner, unless it is \<open>newOwner\<close>), and no
  sequence of transactions sent by others than \<open>newOwner\<close> changes the owner.
\<close>

theorem transferOwnership_unconditional:
  assumes "sender m = owner s"
  shows "transact (transferOwnership m newOwner) s =
           Inr (s\<lparr>events := events s @ [OwnershipTransferred (owner s) newOwner],
                  owner := newOwner\<rparr>) \<and>
         (transact (transferOwnership m newOwner) s = Inr s1 \<longrightarrow>
            owner s1 = newOwner \<and>
            (ownerOnly c \<and> sender m' \<noteq> newOwner \<longrightarrow> transact (body x m' c) s1 = Inl NotOwner) \<and>
            ((\<forall>mc \<in> set cs. sender (fst mc) \<noteq> newOwner) \<longrightarrow> owner (run x s1 cs) = newOwner))"
proof -
  have ok: "transact (transferOwnership m newOwner) s =
      Inr (s\<lparr>events := events s @ [OwnershipTransferred (owner s) newOwner], owner := newOwner\<rparr>)"
    using assms by (simp add: transact_def transferOwnership_def stmt_defs)
  have "owner s1 = newOwner \<and>
      (ownerOnly c \<and> sender m' \<noteq> newOwner \<longrightarrow> transact (body x m' c) s1 = Inl NotOwner) \<and>
      ((\<forall>mc \<in> set cs. sender (fst mc) \<noteq> newOwner) \<longrightarrow> owner (run x s1 cs) = newOwner)"
    if "transact (transferOwnership m newOwner) s = Inr s1"
  proof -
    from that ok have own: "owner s1 = newOwner" by auto
    then show ?thesis
      using ownerOnly_NotOwner [of c m' s1 x] run_owner [of cs s1 x] by simp
  qed
  with ok show ?thesis by blast
qed

theorem transferOwnership_unconditional_witness:
  "sender \<lparr>sender = 1, timestamp = 300\<rparr> = owner demo_pending \<and>
   transact (transferOwnership \<lparr>sender = 1, timestamp = 300\<rparr> 0) demo_pending =
     Inr (demo_pending\<lparr>events := events demo_pending @ [OwnershipTransferred 1 0],
            owner := 0\<rparr>) \<and>
   transact (body demo_externals \<lparr>sender = 1, timestamp = 310\<rparr> (TransferOwnership 1))
     (demo_pending\<lparr>events := events demo_pending @ [OwnershipTransferred 1 0], owner := 0\<rparr>) =
     Inl NotOwner \<and>
   owner (run demo_externals
     (demo_pending\<lparr>events := events demo_pending @ [OwnershipTransferred 1 0], owner := 0\<rparr>)
     [(\<lparr>sender = 1, timestamp = 310\<rparr>, TransferOwnership 1),
      (\<lparr>sender = 2, timestamp = 320\<rparr>, SubmitEncryptedData 5)]) = 0"
proof -
  let ?m = "\<lparr>sender = 1, timestamp = 300\<rparr> :: msg"
  let ?s1 = "demo_pending\<lparr>events := events demo_pending @ [OwnershipTransferred 1 0],
      owner := 0\<rparr>"
  let ?cs = "[(\<lparr>sender = 1, timestamp = 310\<rparr> :: msg, TransferOwnership 1),
      (\<lparr>sender = 2, timestamp = 320\<rparr>, SubmitEncryptedData 5)]"
  have own: "sender ?m = owner demo_pending"
    by (simp add: demo_pending_eq)
  have old: "owner demo_pending = 1"
    by (simp add: demo_pending_eq)
  have others: "\<forall>mc \<in> set ?cs. sender (fst mc) \<noteq> 0"
    by simp
  have "ownerOnly (TransferOwnership 1) \<and> sender \<lparr>sender = 1, timestamp = 310\<rparr> \<noteq> (0 :: address)"
    by simp
  then show ?thesis
    using transferOwnership_unconditional
        [OF own, of 0 ?s1 "TransferOwnership 1" "\<lparr>sender = 1, timestamp = 310\<rparr>" demo_externals ?cs]
      own old others
    by simp
qed

subsection \<open>The state hash\<close>

text \<open>
  Claim C2. A successful \<^verbatim>\<open>requestDecryptionForBatch\<close> stores, under the request id,
  the batch id and the \<^verbatim>\<open>keccak256\<close> of the \<^verbatim>\<open>abi.encode\<close> of the one-element array
  holding the batch's current handle and the contract's address. \<^verbatim>\<open>myCallback\<close>
  recomputes that hash from the current slot of the stored batch id; for a request not yet
  processed, and for every request in every state reachable from the constructor, it
  reverts with \<^verbatim>\<open>StateMismatch\<close> exactly when the recomputed hash differs from the
  stored one.
\<close>

theorem stateHash_captured_and_checked:
  "(transact (requestDecryptionForBatch x m bid (Some requestId)) s = Inr s1 \<longrightarrow>
      decryptionContexts s1 requestId =
        \<lparr>batchId = bid,
         stateHash = keccak256 x (abi_encode x [toBytes32 (encryptedData s bid)] (this_address x)),
         processed = False\<rparr>) \<and>
   (\<not> processed (decryptionContexts s requestId) \<longrightarrow>
      (transact (myCallback x requestId cleartexts prf) s = Inl StateMismatch \<longleftrightarrow>
       keccak256 x (abi_encode x
          [toBytes32 (encryptedData s (batchId (decryptionContexts s requestId)))]
          (this_address x)) \<noteq> stateHash (decryptionContexts s requestId))) \<and>
   (s = run x (constructor m0) cs \<longrightarrow>
      (transact (myCallback x requestId cleartexts prf) s = Inl StateMismatch \<longleftrightarrow>
       keccak256 x (abi_encode x
          [toBytes32 (encryptedData s (batchId (decryptionContexts s requestId)))]
          (this_address x)) \<noteq> stateHash (decryptionContexts s requestId)))"
proof (intro conjI impI)
  assume "transact (requestDecryptionForBatch x m bid (Some requestId)) s = Inr s1"
  then show "decryptionContexts s1 requestId =
      \<lparr>batchId = bid,
       stateHash = keccak256 x (abi_encode x [toBytes32 (encryptedData s bid)] (this_address x)),
       processed = False\<rparr>"
    by (auto simp: transact_def requestDecryptionForBatch_def stmt_defs hashCiphertexts_def
        split: if_splits option.splits)
next
  assume "\<not> processed (decryptionContexts s requestId)"
  then show "transact (myCallback x requestId cleartexts prf) s = Inl StateMismatch \<longleftrightarrow>
      keccak256 x (abi_encode x
        [toBytes32 (encryptedData s (batchId (decryptionContexts s requestId)))]
        (this_address x)) \<noteq> stateHash (decryptionContexts s requestId)"
    by (simp add: transact_def myCallback_def stmt_defs hashCiphertexts_def
        split: option.splits)
next
  assume "s = run x (constructor m0) cs"
  then have inv: "consistent x s"
    by (simp add: run_consistent consistent_constructor)
  show "transact (myCallback x requestId cleartexts prf) s = Inl StateMismatch \<longleftrightarrow>
      keccak256 x (abi_encode x
        [toBytes32 (encryptedData s (batchId (decryptionContexts s requestId)))]
        (this_address x)) \<noteq> stateHash (decryptionContexts s requestId)"
  proof (cases "processed (decryptionContexts s requestId)")
    case True
    then have "stateHash (decryptionContexts s requestId) =
        hash_of_slot x s (batchId (decryptionContexts s requestId))"
      using inv unfolding consistent_def by blast
    moreover have "transact (myCallback x requestId cleartexts prf) s = Inl ReplayAttempt"
      using True by (simp add: transact_def myCallback_def stmt_defs)
    ultimately show ?thesis
      by (simp add: hash_of_slot_def hashCiphertexts_def)
  next
    case False
    then show ?thesis
      by (simp add: transact_def myCallback_def stmt_defs hashCiphertexts_def
          split: option.splits)
  qed
qed

theorem stateHash_captured_and_checked_witness:
  "transact (requestDecryptionForBatch demo_externals \<lparr>sender = 2, timestamp = 300\<rparr> 1 (Some 8))
      demo_pending =
     Inr (demo_pending
       \<lparr>lastDecryptionRequestTime := (lastDecryptionRequestTime demo_pending)(2 := 300),
        decryptionContexts := (decryptionContexts demo_pending)
          (8 := \<lparr>batchId = 1, stateHash = 43969, processed = False\<rparr>),
        events := events demo_pending @ [DecryptionRequested 8 1],
        decryptionRequests := decryptionRequests demo_pending @
          [(8, [171], myCallback_selector)]\<rparr>) \<and>
   \<not> processed (decryptionContexts demo_pending 9) \<and>
   stateHash (decryptionContexts demo_pending 9) = 0 \<and>
   hashCiphertexts demo_externals
     [toBytes32 (encryptedData demo_pending (batchId (decryptionContexts demo_pending 9)))] = 193 \<and>
   transact (myCallback demo_externals 9 demo_cleartexts [1]) demo_pending = Inl StateMismatch \<and>
   demo_done = run demo_externals (constructor \<lparr>sender = 1, timestamp = 0\<rparr>)
     (demo_calls @ [(\<lparr>sender = 3, timestamp = 250\<rparr>, MyCallback 7 demo_cleartexts [1])]) \<and>
   transact (myCallback demo_externals 7 demo_cleartexts [1]) demo_done \<noteq> Inl StateMismatch"
proof -
  let ?m = "\<lparr>sender = 2, timestamp = 300\<rparr> :: msg"
  let ?s1 = "demo_pending
       \<lparr>lastDecryptionRequestTime := (lastDecryptionRequestTime demo_pending)(2 := 300),
        decryptionContexts := (decryptionContexts demo_pending)
          (8 := \<lparr>batchId = 1, stateHash = 43969, processed = False\<rparr>),
        events := events demo_pending @ [DecryptionRequested 8 1],
        decryptionRequests := decryptionRequests demo_pending @
          [(8, [171], myCallback_selector)]\<rparr>"
  have req: "transact (requestDecryptionForBatch demo_externals ?m 1 (Some 8)) demo_pending = Inr ?s1"
    by (simp add: demo_pending_eq transact_def requestDecryptionForBatch_def stmt_defs
        checked_add_200_60 demo_hash_171 toBytes32_def)
  have "decryptionContexts ?s1 8 =
      \<lparr>batchId = 1,
       stateHash = keccak256 demo_externals (abi_encode demo_externals
         [toBytes32 (encryptedData demo_pending 1)] (this_address demo_externals)),
       processed = False\<rparr>"
    using stateHash_captured_and_checked
        [of demo_externals ?m 1 8 demo_pending ?s1] req
    by blast
  have fresh: "\<not> processed (decryptionContexts demo_pending 9)"
    and zero: "stateHash (decryptionContexts demo_pending 9) = 0"
    and slot: "hashCiphertexts demo_externals
      [toBytes32 (encryptedData demo_pending (batchId (decryptionContexts demo_pending 9)))] = 193"
    by (simp_all add: demo_pending_eq toBytes32_def demo_hash_0)
  have differ: "keccak256 demo_externals (abi_encode demo_externals
      [toBytes32 (encryptedData demo_pending (batchId (decryptionContexts demo_pending 9)))]
      (this_address demo_externals)) \<noteq> stateHash (decryptionContexts demo_pending 9)"
    using slot zero by (simp add: hashCiphertexts_def)
  have mismatch: "transact (myCallback demo_externals 9 demo_cleartexts [1]) demo_pending =
      Inl StateMismatch"
    using stateHash_captured_and_checked
        [of demo_externals _ _ 9 demo_pending _ demo_cleartexts "[1]"] fresh differ
    by blast
  have reach: "demo_done = run demo_externals (constructor \<lparr>sender = 1, timestamp = 0\<rparr>)
      (demo_calls @ [(\<lparr>sender = 3, timestamp = 250\<rparr>, MyCallback 7 demo_cleartexts [1])])"
    by (simp add: demo_done_def demo_pending_def run_def)
  have same: "\<not> keccak256 demo_externals (abi_encode demo_externals
      [toBytes32 (encryptedData demo_done (batchId (decryptionContexts demo_done 7)))]
      (this_address demo_externals)) \<noteq> stateHash (decryptionContexts demo_done 7)"
    using demo_hash_171
    by (simp add: demo_done_eq demo_pending_eq toBytes32_def hashCiphertexts_def)
  have "transact (myCallback demo_externals 7 demo_cleartexts [1]) demo_done \<noteq> Inl StateMismatch"
    using stateHash_captured_and_checked
        [of demo_externals _ _ 7 demo_done _ demo_cleartexts "[1]"
          "\<lparr>sender = 1, timestamp = 0\<rparr>"
          "demo_calls @
            [(\<lparr>sender = 3, timestamp = 250\<rparr>, MyCallback 7 demo_cleartexts [1])]"]
      reach same
    by blast
  then show ?thesis using req fresh zero slot mismatch reach by simp
qed

subsection \<open>A request id the contract never stored\<close>

text \<open>
  Claim C3, as the code has it. \<^verbatim>\<open>myCallback\<close> has no check that the request id is
  known. Under an id with the all-zero context it never reverts with
  \<^verbatim>\<open>ReplayAttempt\<close>. In a state reached from the constructor by transactions none of
  which stored a request under that id, the context is all zero and, when the hash of the
  empty slot of batch 0 is not 0 (as with \<^verbatim>\<open>keccak256\<close>), the call reverts with
  \<^verbatim>\<open>StateMismatch\<close>.
\<close>

theorem myCallback_unknown_requestId:
  "(decryptionContexts s requestId = noContext \<longrightarrow>
      transact (myCallback x requestId cleartexts prf) s \<noteq> Inl ReplayAttempt) \<and>
   ((\<forall>mc \<in> set cs. \<forall>b. snd mc \<noteq> RequestDecryptionForBatch b (Some requestId)) \<and>
    hashCiphertexts x [toBytes32 0] \<noteq> 0 \<longrightarrow>
      decryptionContexts (run x (constructor m0) cs) requestId = noContext \<and>
      transact (myCallback x requestId cleartexts prf) (run x (constructor m0) cs) =
        Inl StateMismatch)"
proof (intro conjI impI)
  assume "decryptionContexts s requestId = noContext"
  then show "transact (myCallback x requestId cleartexts prf) s \<noteq> Inl ReplayAttempt"
    by (simp add: transact_def myCallback_def stmt_defs noContext_def split: option.splits)
next
  assume a: "(\<forall>mc \<in> set cs. \<forall>b. snd mc \<noteq> RequestDecryptionForBatch b (Some requestId)) \<and>
      hashCiphertexts x [toBytes32 0] \<noteq> 0"
  have "currentBatchId (constructor m0) \<noteq> 0 \<and> encryptedData (constructor m0) 0 = 0 \<and>
      decryptionContexts (constructor m0) requestId = noContext"
    by (simp add: constructor_def noContext_def)
  then have inv: "currentBatchId (run x (constructor m0) cs) \<noteq> 0 \<and>
      encryptedData (run x (constructor m0) cs) 0 = 0 \<and>
      decryptionContexts (run x (constructor m0) cs) requestId = noContext"
    using a by (intro run_noContext) simp_all
  then show "decryptionContexts (run x (constructor m0) cs) requestId = noContext"
    by simp
  show "transact (myCallback x requestId cleartexts prf) (run x (constructor m0) cs) =
      Inl StateMismatch"
    using inv a by (simp add: transact_def myCallback_def stmt_defs noContext_def)
qed

theorem myCallback_unknown_requestId_witness:
  "decryptionContexts demo_pending 5 = noContext \<and>
   hashCiphertexts demo_externals [toBytes32 0] = 193 \<and>
   transact (myCallback demo_externals 5 [] []) demo_pending = Inl StateMismatch"
proof -
  have none: "\<forall>mc \<in> set demo_calls. \<forall>b. snd mc \<noteq> RequestDecryptionForBatch b (Some 5)"
    by (simp add: demo_calls_def)
  have h: "hashCiphertexts demo_externals [toBytes32 0] = 193"
    by (simp add: toBytes32_def demo_hash_0)
  then have nz: "hashCiphertexts demo_externals [toBytes32 0] \<noteq> 0"
    by simp
  have zero: "decryptionContexts demo_pending 5 = noContext"
    by (simp add: demo_pending_eq noContext_def)
  have "transact (myCallback demo_externals 5 [] []) demo_pending \<noteq> Inl ReplayAttempt"
    using myCallback_unknown_requestId [of demo_pending 5 demo_externals "[]" "[]"] zero
    by blast
  moreover have "transact (myCallback demo_externals 5 [] []) demo_pending = Inl StateMismatch"
    using myCallback_unknown_requestId
        [of demo_pending 5 demo_externals "[]" "[]" demo_calls "\<lparr>sender = 1, timestamp = 0\<rparr>"]
      none nz
    by (simp add: demo_pending_def)
  ultimately show ?thesis using zero h by simp
qed

text \<open>
  The claim as written fails in the concrete run: no request was stored under the id 9,
  and the callback with that id reverts with \<^verbatim>\<open>StateMismatch\<close>.
\<close>

theorem myCallback_unknown_requestId_counterexample:
  "decryptionContexts demo_pending 9 = noContext \<and>
   transact (myCallback demo_externals 9 demo_cleartexts [1]) demo_pending = Inl StateMismatch \<and>
   transact (myCallback demo_externals 9 demo_cleartexts [1]) demo_pending \<noteq> Inl ReplayAttempt"
  by (simp add: demo_pending_eq noContext_def transact_def myCallback_def stmt_defs
      demo_hash_0 toBytes32_def)

subsection \<open>Requesting a decryption\<close>

text \<open>
  Claim C5, as the code has it. Called by a provider while the contract is not paused,
  \<^verbatim>\<open>requestDecryptionForBatch\<close> adds the caller's last request time and the cooldown in
  checked arithmetic. When the sum overflows \<^verbatim>\<open>uint256\<close> the call reverts with the
  arithmetic panic; when it does not and the timestamp is below it, with
  \<^verbatim>\<open>CooldownActive\<close>. Once the cooldown has elapsed, the call reverts with
  \<^verbatim>\<open>InvalidBatchId\<close> when the batch id is 0, above the batch counter or names an open
  batch. Otherwise it records the caller's request time and calls
  \<^verbatim>\<open>FHE.requestDecryption\<close> with the batch's handle and the selector of
  \<^verbatim>\<open>myCallback\<close>: when that call reverts, so does the whole call; when it returns a
  request id, the oracle has registered the request, and the contract stores the context
  (batch id, state hash, not processed) under that id and logs the request. The last
  submission time plays no part.
\<close>

theorem requestDecryptionForBatch_checks_and_effects:
  assumes "isProvider s (sender m)" and "\<not> paused s"
  shows
    "(2 ^ 256 \<le> unat (lastDecryptionRequestTime s (sender m)) + unat (cooldownSeconds s) \<longrightarrow>
        transact (requestDecryptionForBatch x m bid reply) s = Inl Panic) \<and>
     (unat (lastDecryptionRequestTime s (sender m)) + unat (cooldownSeconds s) < 2 ^ 256 \<and>
      unat (timestamp m) < unat (lastDecryptionRequestTime s (sender m)) + unat (cooldownSeconds s) \<longrightarrow>
        transact (requestDecryptionForBatch x m bid reply) s = Inl CooldownActive) \<and>
     (unat (lastDecryptionRequestTime s (sender m)) + unat (cooldownSeconds s) \<le> unat (timestamp m) \<and>
      (bid = 0 \<or> currentBatchId s < bid \<or> \<not> batchClosed s bid) \<longrightarrow>
        transact (requestDecryptionForBatch x m bid reply) s = Inl InvalidBatchId) \<and>
     (unat (lastDecryptionRequestTime s (sender m)) + unat (cooldownSeconds s) \<le> unat (timestamp m) \<and>
      bid \<noteq> 0 \<and> bid \<le> currentBatchId s \<and> batchClosed s bid \<longrightarrow>
        transact (requestDecryptionForBatch x m bid None) s = Inl RequestDecryptionReverted \<and>
        transact (requestDecryptionForBatch x m bid (Some requestId)) s =
          Inr (s\<lparr>lastDecryptionRequestTime :=
                   (lastDecryptionRequestTime s)(sender m := timestamp m),
                 decryptionRequests := decryptionRequests s @
                   [(requestId, [toBytes32 (encryptedData s bid)], myCallback_selector)],
                 decryptionContexts := (decryptionContexts s)
                   (requestId := \<lparr>batchId = bid,
                                  stateHash = hashCiphertexts x [toBytes32 (encryptedData s bid)],
                                  processed = False\<rparr>),
                 events := events s @ [DecryptionRequested requestId bid]\<rparr>)) \<and>
     transact (requestDecryptionForBatch x m bid reply) (s\<lparr>lastSubmissionTime := f\<rparr>) =
       map_sum id (\<lambda>t. t\<lparr>lastSubmissionTime := f\<rparr>)
         (transact (requestDecryptionForBatch x m bid reply) s)"
proof (intro conjI impI)
  assume "2 ^ 256 \<le> unat (lastDecryptionRequestTime s (sender m)) + unat (cooldownSeconds s)"
  then show "transact (requestDecryptionForBatch x m bid reply) s = Inl Panic"
    using assms
    by (simp add: transact_def requestDecryptionForBatch_def stmt_defs checked_add_None)
next
  assume "unat (lastDecryptionRequestTime s (sender m)) + unat (cooldownSeconds s) < 2 ^ 256 \<and>
    unat (timestamp m) < unat (lastDecryptionRequestTime s (sender m)) + unat (cooldownSeconds s)"
  then show "transact (requestDecryptionForBatch x m bid reply) s = Inl CooldownActive"
    using assms
    by (simp add: transact_def requestDecryptionForBatch_def stmt_defs checked_add_Some
        less_checked_sum)
next
  assume a: "unat (lastDecryptionRequestTime s (sender m)) + unat (cooldownSeconds s)
      \<le> unat (timestamp m) \<and> (bid = 0 \<or> currentBatchId s < bid \<or> \<not> batchClosed s bid)"
  then have "checked_add (lastDecryptionRequestTime s (sender m)) (cooldownSeconds s) =
      Some (lastDecryptionRequestTime s (sender m) + cooldownSeconds s) \<and>
      \<not> timestamp m < lastDecryptionRequestTime s (sender m) + cooldownSeconds s"
    by (intro checked_add_reached) simp
  then show "transact (requestDecryptionForBatch x m bid reply) s = Inl InvalidBatchId"
    using assms a
    by (auto simp: transact_def requestDecryptionForBatch_def stmt_defs)
next
  assume a: "unat (lastDecryptionRequestTime s (sender m)) + unat (cooldownSeconds s)
      \<le> unat (timestamp m) \<and> bid \<noteq> 0 \<and> bid \<le> currentBatchId s \<and> batchClosed s bid"
  then have reached: "checked_add (lastDecryptionRequestTime s (sender m)) (cooldownSeconds s) =
      Some (lastDecryptionRequestTime s (sender m) + cooldownSeconds s) \<and>
      \<not> timestamp m < lastDecryptionRequestTime s (sender m) + cooldownSeconds s"
    by (intro checked_add_reached) simp
  then show "transact (requestDecryptionForBatch x m bid None) s = Inl RequestDecryptionReverted"
    using assms a
    by (auto simp: transact_def requestDecryptionForBatch_def stmt_defs)
  from reached show "transact (requestDecryptionForBatch x m bid (Some requestId)) s =
      Inr (s\<lparr>lastDecryptionRequestTime := (lastDecryptionRequestTime s)(sender m := timestamp m),
             decryptionRequests := decryptionRequests s @
               [(requestId, [toBytes32 (encryptedData s bid)], myCallback_selector)],
             decryptionContexts := (decryptionContexts s)
               (requestId := \<lparr>batchId = bid,
                              stateHash = hashCiphertexts x [toBytes32 (encryptedData s bid)],
                              processed = False\<rparr>),
             events := events s @ [DecryptionRequested requestId bid]\<rparr>)"
    using assms a
    by (auto simp: transact_def requestDecryptionForBatch_def stmt_defs)
next
  show "transact (requestDecryptionForBatch x m bid reply) (s\<lparr>lastSubmissionTime := f\<rparr>) =
      map_sum id (\<lambda>t. t\<lparr>lastSubmissionTime := f\<rparr>)
        (transact (requestDecryptionForBatch x m bid reply) s)"
    by (simp add: transact_def requestDecryptionForBatch_def stmt_defs split: option.splits)
qed

theorem requestDecryptionForBatch_checks_and_effects_witness:
  "transact (requestDecryptionForBatch demo_externals \<lparr>sender = 2, timestamp = 250\<rparr> 1 (Some 8))
      demo_pending = Inl CooldownActive \<and>
   transact (requestDecryptionForBatch demo_externals \<lparr>sender = 2, timestamp = 300\<rparr> 2 (Some 8))
      demo_pending = Inl InvalidBatchId \<and>
   transact (requestDecryptionForBatch demo_externals \<lparr>sender = 2, timestamp = 300\<rparr> 1 None)
      demo_pending = Inl RequestDecryptionReverted \<and>
   transact (requestDecryptionForBatch demo_externals \<lparr>sender = 2, timestamp = 300\<rparr> 1 (Some 8))
      demo_pending =
     Inr (demo_pending
       \<lparr>lastDecryptionRequestTime := (lastDecryptionRequestTime demo_pending)(2 := 300),
        decryptionRequests := decryptionRequests demo_pending @
          [(8, [171], myCallback_selector)],
        decryptionContexts := (decryptionContexts demo_pending)
          (8 := \<lparr>batchId = 1, stateHash = 43969, processed = False\<rparr>),
        events := events demo_pending @ [DecryptionRequested 8 1]\<rparr>) \<and>
   transact (requestDecryptionForBatch demo_externals \<lparr>sender = 2, timestamp = 300\<rparr> 1 (Some 8))
      demo_max_cooldown = Inl Panic"
proof -
  let ?early = "\<lparr>sender = 2, timestamp = 250\<rparr> :: msg"
  let ?late = "\<lparr>sender = 2, timestamp = 300\<rparr> :: msg"
  have prov: "isProvider demo_pending (sender ?early)" "isProvider demo_pending (sender ?late)"
    and run: "\<not> paused demo_pending"
    by (simp_all add: demo_pending_eq)
  have prov': "isProvider demo_max_cooldown (sender ?late)" and run': "\<not> paused demo_max_cooldown"
    by (simp_all add: demo_max_cooldown_eq demo_pending_eq)
  have early: "unat (lastDecryptionRequestTime demo_pending (sender ?early)) +
        unat (cooldownSeconds demo_pending) < 2 ^ 256 \<and>
      unat (timestamp ?early) < unat (lastDecryptionRequestTime demo_pending (sender ?early)) +
        unat (cooldownSeconds demo_pending)"
    by (simp add: demo_pending_eq)
  have late: "unat (lastDecryptionRequestTime demo_pending (sender ?late)) +
      unat (cooldownSeconds demo_pending) \<le> unat (timestamp ?late)"
    by (simp add: demo_pending_eq)
  have above: "currentBatchId demo_pending < 2"
    and closed: "(1 :: uint256) \<noteq> 0 \<and> 1 \<le> currentBatchId demo_pending \<and> batchClosed demo_pending 1"
    and handle: "toBytes32 (encryptedData demo_pending 1) = 171"
    and slot: "hashCiphertexts demo_externals [toBytes32 (encryptedData demo_pending 1)] = 43969"
    by (simp_all add: demo_pending_eq toBytes32_def demo_hash_171)
  have over: "2 ^ 256 \<le> unat (lastDecryptionRequestTime demo_max_cooldown (sender ?late)) +
      unat (cooldownSeconds demo_max_cooldown)"
    by (simp add: demo_max_cooldown_eq demo_pending_eq unsigned_minus_1_eq_mask
        mask_eq_exp_minus_1)
  have "transact (requestDecryptionForBatch demo_externals ?early 1 (Some 8)) demo_pending =
      Inl CooldownActive"
    using requestDecryptionForBatch_checks_and_effects
        [OF prov(1) run, of demo_externals 1 "Some 8"] early by blast
  moreover have "transact (requestDecryptionForBatch demo_externals ?late 2 (Some 8))
      demo_pending = Inl InvalidBatchId"
    using requestDecryptionForBatch_checks_and_effects
        [OF prov(2) run, of demo_externals 2 "Some 8"] late above by blast
  moreover have "transact (requestDecryptionForBatch demo_externals ?late 1 None) demo_pending =
      Inl RequestDecryptionReverted"
    using requestDecryptionForBatch_checks_and_effects
        [OF prov(2) run, of demo_externals 1 None 8] late closed by blast
  moreover have "transact (requestDecryptionForBatch demo_externals ?late 1 (Some 8))
      demo_pending =
      Inr (demo_pending
       \<lparr>lastDecryptionRequestTime := (lastDecryptionRequestTime demo_pending)(2 := 300),
        decryptionRequests := decryptionRequests demo_pending @
          [(8, [171], myCallback_selector)],
        decryptionContexts := (decryptionContexts demo_pending)
          (8 := \<lparr>batchId = 1, stateHash = 43969, processed = False\<rparr>),
        events := events demo_pending @ [DecryptionRequested 8 1]\<rparr>)"
    using requestDecryptionForBatch_checks_and_effects
        [OF prov(2) run, of demo_externals 1 None 8] late closed slot handle by simp
  moreover have "transact (requestDecryptionForBatch demo_externals ?late 1 (Some 8))
      demo_max_cooldown = Inl Panic"
    using requestDecryptionForBatch_checks_and_effects
        [OF prov' run', of demo_externals 1 "Some 8"] over by blast
  ultimately show ?thesis by simp
qed

text \<open>
  The claim as written fails after the owner set the cooldown to the largest
  \<^verbatim>\<open>uint256\<close>: the provider's cooldown has not elapsed, and the call reverts with the
  arithmetic panic, not with \<^verbatim>\<open>CooldownActive\<close>, whatever the oracle would reply.
\<close>

theorem requestDecryptionForBatch_cooldown_counterexample:
  "isProvider demo_max_cooldown 2 \<and> \<not> paused demo_max_cooldown \<and>
   lastDecryptionRequestTime demo_max_cooldown 2 = 200 \<and>
   cooldownSeconds demo_max_cooldown = - 1 \<and>
   unat (300 :: uint256) < unat (200 :: uint256) + unat (- 1 :: uint256) \<and>
   transact (requestDecryptionForBatch demo_externals \<lparr>sender = 2, timestamp = 300\<rparr> 1 (Some 8))
     demo_max_cooldown = Inl Panic"
  by (simp add: demo_max_cooldown_eq demo_pending_eq transact_def requestDecryptionForBatch_def
      stmt_defs checked_add_max unsigned_minus_1_eq_mask mask_eq_exp_minus_1)

subsection \<open>Submitting\<close>

text \<open>
  Claim C6, as the code has it. Called by a provider while the contract is not paused,
  \<^verbatim>\<open>submitEncryptedData\<close> adds the caller's last submission time and the cooldown in
  checked arithmetic. It reverts with the arithmetic panic exactly when the sum overflows
  \<^verbatim>\<open>uint256\<close>, and with \<^verbatim>\<open>CooldownActive\<close> exactly when the sum does not overflow
  and the timestamp is below it. Once the cooldown has elapsed it reverts with
  \<^verbatim>\<open>BatchClosedOrInvalid\<close> when the current batch is closed, and otherwise records the
  timestamp as the caller's last submission time, overwrites the slot of the current
  batch with the submitted value and logs caller, batch and value. A second submission by
  the same caller at least the cooldown after a successful one succeeds.
\<close>

theorem submitEncryptedData_checks_and_effects:
  assumes "isProvider s (sender m)" and "\<not> paused s"
  shows
    "(transact (submitEncryptedData m v) s = Inl Panic \<longleftrightarrow>
        2 ^ 256 \<le> unat (lastSubmissionTime s (sender m)) + unat (cooldownSeconds s)) \<and>
     (transact (submitEncryptedData m v) s = Inl CooldownActive \<longleftrightarrow>
        unat (lastSubmissionTime s (sender m)) + unat (cooldownSeconds s) < 2 ^ 256 \<and>
        unat (timestamp m) < unat (lastSubmissionTime s (sender m)) + unat (cooldownSeconds s)) \<and>
     (unat (lastSubmissionTime s (sender m)) + unat (cooldownSeconds s) \<le> unat (timestamp m) \<and>
      batchClosed s (currentBatchId s) \<longrightarrow>
        transact (submitEncryptedData m v) s = Inl BatchClosedOrInvalid) \<and>
     (unat (lastSubmissionTime s (sender m)) + unat (cooldownSeconds s) \<le> unat (timestamp m) \<and>
      \<not> batchClosed s (currentBatchId s) \<longrightarrow>
        transact (submitEncryptedData m v) s =
          Inr (s\<lparr>lastSubmissionTime := (lastSubmissionTime s)(sender m := timestamp m),
                 encryptedData := (encryptedData s)(currentBatchId s := v),
                 events := events s @ [DataSubmitted (sender m) (currentBatchId s) v]\<rparr>)) \<and>
     (transact (submitEncryptedData m v) s = Inr s1 \<and> sender m2 = sender m \<and>
      unat (timestamp m) + unat (cooldownSeconds s) \<le> unat (timestamp m2) \<longrightarrow>
        (\<exists>s2. transact (submitEncryptedData m2 v2) s1 = Inr s2))"
proof -
  let ?L = "lastSubmissionTime s (sender m)"
  let ?C = "cooldownSeconds s"
  have over: "transact (submitEncryptedData m v) s = Inl Panic" if "2 ^ 256 \<le> unat ?L + unat ?C"
    using that assms
    by (simp add: transact_def submitEncryptedData_def stmt_defs checked_add_None)
  have active: "transact (submitEncryptedData m v) s = Inl CooldownActive"
    if "unat ?L + unat ?C < 2 ^ 256" "unat (timestamp m) < unat ?L + unat ?C"
    using that assms
    by (simp add: transact_def submitEncryptedData_def stmt_defs checked_add_Some less_checked_sum)
  have reached: "checked_add ?L ?C = Some (?L + ?C) \<and> \<not> timestamp m < ?L + ?C"
    if "unat ?L + unat ?C \<le> unat (timestamp m)"
    using that by (rule checked_add_reached)
  have closed: "transact (submitEncryptedData m v) s = Inl BatchClosedOrInvalid"
    if "unat ?L + unat ?C \<le> unat (timestamp m)" "batchClosed s (currentBatchId s)"
    using reached [OF that(1)] that(2) assms
    by (simp add: transact_def submitEncryptedData_def stmt_defs)
  have ok: "transact (submitEncryptedData m v) s =
      Inr (s\<lparr>lastSubmissionTime := (lastSubmissionTime s)(sender m := timestamp m),
             encryptedData := (encryptedData s)(currentBatchId s := v),
             events := events s @ [DataSubmitted (sender m) (currentBatchId s) v]\<rparr>)"
    if "unat ?L + unat ?C \<le> unat (timestamp m)" "\<not> batchClosed s (currentBatchId s)"
    using reached [OF that(1)] that(2) assms
    by (simp add: transact_def submitEncryptedData_def stmt_defs)
  have cases: "2 ^ 256 \<le> unat ?L + unat ?C \<or>
      (unat ?L + unat ?C < 2 ^ 256 \<and> unat (timestamp m) < unat ?L + unat ?C) \<or>
      unat ?L + unat ?C \<le> unat (timestamp m)"
    by linarith
  have panic_iff: "transact (submitEncryptedData m v) s = Inl Panic \<longleftrightarrow>
      2 ^ 256 \<le> unat ?L + unat ?C"
  proof
    assume p: "transact (submitEncryptedData m v) s = Inl Panic"
    show "2 ^ 256 \<le> unat ?L + unat ?C"
    proof (rule ccontr)
      assume "\<not> 2 ^ 256 \<le> unat ?L + unat ?C"
      then consider "unat ?L + unat ?C < 2 ^ 256" "unat (timestamp m) < unat ?L + unat ?C"
        | "unat ?L + unat ?C \<le> unat (timestamp m)"
        using cases by blast
      then show False
      proof cases
        case 1
        then show False using active p by simp
      next
        case 2
        then show False using closed [OF 2] ok [OF 2] p
          by (cases "batchClosed s (currentBatchId s)") simp_all
      qed
    qed
  qed (rule over)
  have active_iff: "transact (submitEncryptedData m v) s = Inl CooldownActive \<longleftrightarrow>
      unat ?L + unat ?C < 2 ^ 256 \<and> unat (timestamp m) < unat ?L + unat ?C"
  proof
    assume p: "transact (submitEncryptedData m v) s = Inl CooldownActive"
    show "unat ?L + unat ?C < 2 ^ 256 \<and> unat (timestamp m) < unat ?L + unat ?C"
    proof (rule ccontr)
      assume "\<not> (unat ?L + unat ?C < 2 ^ 256 \<and> unat (timestamp m) < unat ?L + unat ?C)"
      then consider "2 ^ 256 \<le> unat ?L + unat ?C" | "unat ?L + unat ?C \<le> unat (timestamp m)"
        using cases by blast
      then show False
      proof cases
        case 1
        then show False using over p by simp
      next
        case 2
        then show False using closed [OF 2] ok [OF 2] p
          by (cases "batchClosed s (currentBatchId s)") simp_all
      qed
    qed
  qed (use active in blast)
  have again: "\<exists>s2. transact (submitEncryptedData m2 v2) s1 = Inr s2"
    if "transact (submitEncryptedData m v) s = Inr s1" "sender m2 = sender m"
      "unat (timestamp m) + unat ?C \<le> unat (timestamp m2)"
  proof -
    from that(1) have s1: "isProvider s1 (sender m2)" "\<not> paused s1"
      "lastSubmissionTime s1 (sender m2) = timestamp m" "cooldownSeconds s1 = ?C"
      "\<not> batchClosed s1 (currentBatchId s1)"
      using that(2)
      by (auto simp: transact_def submitEncryptedData_def stmt_defs
          split: if_splits option.splits)
    have "checked_add (timestamp m) ?C = Some (timestamp m + ?C) \<and>
        \<not> timestamp m2 < timestamp m + ?C"
      using that(3) by (rule checked_add_reached)
    then show ?thesis using s1
      by (simp add: transact_def submitEncryptedData_def stmt_defs)
  qed
  show ?thesis
    using panic_iff active_iff closed ok again by blast
qed

theorem submitEncryptedData_checks_and_effects_witness:
  "transact (submitEncryptedData \<lparr>sender = 2, timestamp = 120\<rparr> 99) demo_submitted =
     Inl CooldownActive \<and>
   transact (submitEncryptedData \<lparr>sender = 2, timestamp = 160\<rparr> 99) demo_submitted =
     Inr (demo_submitted
       \<lparr>lastSubmissionTime := (lastSubmissionTime demo_submitted)(2 := 160),
        encryptedData := (encryptedData demo_submitted)(1 := 99),
        events := events demo_submitted @ [DataSubmitted 2 1 99]\<rparr>) \<and>
   (\<exists>s2. transact (submitEncryptedData \<lparr>sender = 2, timestamp = 220\<rparr> 7)
     (demo_submitted
       \<lparr>lastSubmissionTime := (lastSubmissionTime demo_submitted)(2 := 160),
        encryptedData := (encryptedData demo_submitted)(1 := 99),
        events := events demo_submitted @ [DataSubmitted 2 1 99]\<rparr>) = Inr s2) \<and>
   transact (submitEncryptedData \<lparr>sender = 2, timestamp = 300\<rparr> 99) demo_pending =
     Inl BatchClosedOrInvalid \<and>
   transact (submitEncryptedData \<lparr>sender = 2, timestamp = 300\<rparr> 99) demo_max_cooldown =
     Inl Panic"
proof -
  let ?early = "\<lparr>sender = 2, timestamp = 120\<rparr> :: msg"
  let ?due = "\<lparr>sender = 2, timestamp = 160\<rparr> :: msg"
  let ?next = "\<lparr>sender = 2, timestamp = 220\<rparr> :: msg"
  let ?late = "\<lparr>sender = 2, timestamp = 300\<rparr> :: msg"
  let ?s1 = "demo_submitted
       \<lparr>lastSubmissionTime := (lastSubmissionTime demo_submitted)(2 := 160),
        encryptedData := (encryptedData demo_submitted)(1 := 99),
        events := events demo_submitted @ [DataSubmitted 2 1 99]\<rparr>"
  have prov: "isProvider demo_submitted (sender ?early)" "isProvider demo_submitted (sender ?due)"
    and run: "\<not> paused demo_submitted"
    by (simp_all add: demo_submitted_eq constructor_def)
  have prov_p: "isProvider demo_pending (sender ?late)" and run_p: "\<not> paused demo_pending"
    by (simp_all add: demo_pending_eq)
  have prov_m: "isProvider demo_max_cooldown (sender ?late)"
    and run_m: "\<not> paused demo_max_cooldown"
    by (simp_all add: demo_max_cooldown_eq demo_pending_eq)
  have early: "unat (lastSubmissionTime demo_submitted (sender ?early)) +
        unat (cooldownSeconds demo_submitted) < 2 ^ 256 \<and>
      unat (timestamp ?early) < unat (lastSubmissionTime demo_submitted (sender ?early)) +
        unat (cooldownSeconds demo_submitted)"
    by (simp add: demo_submitted_eq constructor_def)
  have due: "unat (lastSubmissionTime demo_submitted (sender ?due)) +
        unat (cooldownSeconds demo_submitted) \<le> unat (timestamp ?due) \<and>
      \<not> batchClosed demo_submitted (currentBatchId demo_submitted)"
    by (simp add: demo_submitted_eq constructor_def)
  have cur: "currentBatchId demo_submitted = 1"
    by (simp add: demo_submitted_eq constructor_def)
  have late: "unat (lastSubmissionTime demo_pending (sender ?late)) +
        unat (cooldownSeconds demo_pending) \<le> unat (timestamp ?late) \<and>
      batchClosed demo_pending (currentBatchId demo_pending)"
    by (simp add: demo_pending_eq)
  have over: "2 ^ 256 \<le> unat (lastSubmissionTime demo_max_cooldown (sender ?late)) +
      unat (cooldownSeconds demo_max_cooldown)"
    by (simp add: demo_max_cooldown_eq demo_pending_eq unsigned_minus_1_eq_mask
        mask_eq_exp_minus_1)
  have gap: "sender ?next = sender ?due \<and>
      unat (timestamp ?due) + unat (cooldownSeconds demo_submitted) \<le> unat (timestamp ?next)"
    by (simp add: demo_submitted_eq constructor_def)
  have a: "transact (submitEncryptedData ?early 99) demo_submitted = Inl CooldownActive"
    using submitEncryptedData_checks_and_effects [OF prov(1) run, of 99] early by blast
  have b: "transact (submitEncryptedData ?due 99) demo_submitted = Inr ?s1"
    using submitEncryptedData_checks_and_effects [OF prov(2) run, of 99] due cur by simp
  have c: "\<exists>s2. transact (submitEncryptedData ?next 7) ?s1 = Inr s2"
    using submitEncryptedData_checks_and_effects [OF prov(2) run, of 99 ?s1 ?next 7] b gap
    by blast
  have d: "transact (submitEncryptedData ?late 99) demo_pending = Inl BatchClosedOrInvalid"
    using submitEncryptedData_checks_and_effects [OF prov_p run_p, of 99] late by blast
  have e: "transact (submitEncryptedData ?late 99) demo_max_cooldown = Inl Panic"
    using submitEncryptedData_checks_and_effects [OF prov_m run_m, of 99] over by blast
  show ?thesis using a b c d e by simp
qed

text \<open>
  The claim as written fails after the owner set the cooldown to the largest
  \<^verbatim>\<open>uint256\<close>: the timestamp is below last submission time plus cooldown, and the
  call reverts with the arithmetic panic, not with \<^verbatim>\<open>CooldownActive\<close>.
\<close>

theorem submitEncryptedData_cooldown_counterexample:
  "isProvider demo_max_cooldown 2 \<and> \<not> paused demo_max_cooldown \<and>
   lastSubmissionTime demo_max_cooldown 2 = 100 \<and>
   cooldownSeconds demo_max_cooldown = - 1 \<and>
   unat (300 :: uint256) < unat (100 :: uint256) + unat (- 1 :: uint256) \<and>
   transact (submitEncryptedData \<lparr>sender = 2, timestamp = 300\<rparr> 99) demo_max_cooldown =
     Inl Panic"
  by (simp add: demo_max_cooldown_eq demo_pending_eq transact_def submitEncryptedData_def
      stmt_defs checked_add_max unsigned_minus_1_eq_mask mask_eq_exp_minus_1)

end
